theory Spec2Isabelle
  imports Complex_Main "HOL-Library.AList"
begin

section \<open>The layout state store of main.ts (class TableMap)\<close>

text \<open>
  The store of the plugin is the class \<open>TableMap\<close>: the view width, the measured
  width of the wrapper of every table, the left gap derived for every table, and three
  lists of change listeners.

  \<^item> A JavaScript \<open>number\<close> is modelled as a rational. The wrapper and line widths the
    plugin passes are \<open>clientWidth\<close> values (integers), the view width is a
    \<open>clientWidth\<close> less a parsed padding; comparison, subtraction and halving are the
    exact ones. \<open>NaN\<close>, the infinities and rounding are outside the model.
  \<^item> A \<open>Record<TableId, number>\<close> is an association list in insertion order: reading
    \<open>r[k]\<close> is \<open>map_of r k\<close> (\<open>None\<close> is \<open>undefined\<close>), writing \<open>r[k] = v\<close> is
    \<open>AList.update k v r\<close> (an existing key keeps its place, a new key goes last), and
    \<open>Object.keys(r)\<close> is \<open>map fst r\<close>. Table ids are UUIDs, so no key is an array
    index (which \<open>Object.keys\<close> would list first) or a name of \<open>Object.prototype\<close>.
  \<^item> A listener is a callback with effects outside the store: a function on the state
    \<open>'w\<close> of the document (and console), which returns normally or throws. It does not
    call back into the store; none of the listeners the plugin registers does.
  \<^item> A \<open>throw\<close> is a value: an operation of the store yields a completion, which
    carries the store and the document as the operation left them, since the writes
    made before a \<open>throw\<close> stay in place.
  \<^item> \<open>document.querySelector('.cm-contentContainer')?.clientWidth\<close> is a read of the
    document: a parameter \<open>queryLineWidth\<close> of the operations, \<open>None\<close> when the
    element is absent.
\<close>

type_synonym TableId = string

type_synonym number = rat

datatype error = Error string

datatype 's completion = Returned 's | Threw error 's

fun state_after :: "'s completion \<Rightarrow> 's" where
  "state_after (Returned s) = s"
| "state_after (Threw e s) = s"

record 'w ChangeEventListeners =
  tableWrapperWidth_listeners :: "(TableId \<Rightarrow> number \<Rightarrow> 'w \<Rightarrow> 'w completion) list"
  leftGap_listeners :: "(TableId \<Rightarrow> number \<Rightarrow> 'w \<Rightarrow> 'w completion) list"
  viewWidth_listeners :: "(number \<Rightarrow> 'w \<Rightarrow> 'w completion) list"

record 'w TableMap =
  viewWidth :: "number option"
  tableWrapperWidth :: "(TableId \<times> number) list"
  leftGap :: "(TableId \<times> number) list"
  changeEventListeners :: "'w ChangeEventListeners"

text \<open>The field initialisers of the class: \<open>new TableMap()\<close>.\<close>

definition new_TableMap :: "'w TableMap" where
  "new_TableMap =
     \<lparr>viewWidth = None, tableWrapperWidth = [], leftGap = [],
      changeEventListeners =
        \<lparr>tableWrapperWidth_listeners = [], leftGap_listeners = [], viewWidth_listeners = []\<rparr>\<rparr>"

subsection \<open>Notification loops\<close>

text \<open>
  \<open>for (const callback of listeners) { callback(args) }\<close>: the callbacks run in the
  order of the array, each on the document the previous one left; the first one that
  throws ends the loop.
\<close>

fun forEachCallback :: "('w \<Rightarrow> 'w completion) list \<Rightarrow> 'w \<Rightarrow> 'w completion" where
  "forEachCallback [] doc = Returned doc"
| "forEachCallback (call # calls) doc =
     (case call doc of
        Threw e doc' \<Rightarrow> Threw e doc'
      | Returned doc' \<Rightarrow> forEachCallback calls doc')"

text \<open>The three loops of the class, over \<open>changeEventListeners[...]\<close>.\<close>

definition emitTableWrapperWidth :: "'w TableMap \<Rightarrow> TableId \<Rightarrow> number \<Rightarrow> 'w \<Rightarrow> 'w completion" where
  "emitTableWrapperWidth this tableId width =
     forEachCallback
       (map (\<lambda>callback. callback tableId width)
          (tableWrapperWidth_listeners (changeEventListeners this)))"

definition emitLeftGap :: "'w TableMap \<Rightarrow> TableId \<Rightarrow> number \<Rightarrow> 'w \<Rightarrow> 'w completion" where
  "emitLeftGap this tableId newLeftGap =
     forEachCallback
       (map (\<lambda>callback. callback tableId newLeftGap)
          (leftGap_listeners (changeEventListeners this)))"

definition emitViewWidth :: "'w TableMap \<Rightarrow> number \<Rightarrow> 'w \<Rightarrow> 'w completion" where
  "emitViewWidth this width =
     forEachCallback
       (map (\<lambda>callback. callback width) (viewWidth_listeners (changeEventListeners this)))"

subsection \<open>calcLeftGap\<close>

text \<open>
  The \<open>if\<close> chain that assigns \<open>newLeftGap\<close>, from the width of the wrapper, the
  width of a line and the width of the view.
\<close>

definition newLeftGap :: "number \<Rightarrow> number \<Rightarrow> number \<Rightarrow> number" where
  "newLeftGap wrapperWidth lineWidth view =
     (if wrapperWidth < lineWidth then 0
      else if lineWidth < wrapperWidth \<and> wrapperWidth < view
        then (wrapperWidth - lineWidth) / 2
      else (view - lineWidth) / 2)"

text \<open>
  The three checks come first, in the order of the source; the line width is read only
  after the first two have passed. The left gap is written before the listeners run.
\<close>

definition calcLeftGap ::
  "('w \<Rightarrow> number option) \<Rightarrow> 'w TableMap \<Rightarrow> TableId \<Rightarrow> 'w \<Rightarrow> ('w TableMap \<times> 'w) completion" where
  "calcLeftGap queryLineWidth this tableId doc =
     (case map_of (tableWrapperWidth this) tableId of
        None \<Rightarrow>
          Threw (Error (''tableWrapperWidth not found in tableMap: '' @ tableId)) (this, doc)
      | Some wrapperWidth \<Rightarrow>
          (case viewWidth this of
             None \<Rightarrow> Threw (Error ''viewWidth is not initialized'') (this, doc)
           | Some view \<Rightarrow>
               (case queryLineWidth doc of
                  None \<Rightarrow> Threw (Error ''lineWidth is not initialized'') (this, doc)
                | Some lineWidth \<Rightarrow>
                    (let g = newLeftGap wrapperWidth lineWidth view;
                         this' = this\<lparr>leftGap := AList.update tableId g (leftGap this)\<rparr>
                     in (case emitLeftGap this' tableId g doc of
                           Threw e doc' \<Rightarrow> Threw e (this', doc')
                         | Returned doc' \<Rightarrow> Returned (this', doc'))))))"

subsection \<open>setTableWrapperWidth and setViewWidth\<close>

definition setTableWrapperWidth ::
  "('w \<Rightarrow> number option) \<Rightarrow> 'w TableMap \<Rightarrow> TableId \<Rightarrow> number \<Rightarrow> 'w
     \<Rightarrow> ('w TableMap \<times> 'w) completion" where
  "setTableWrapperWidth queryLineWidth this tableId width doc =
     (let isValueChanged = (map_of (tableWrapperWidth this) tableId \<noteq> Some width)
      in if isValueChanged then
           (let this' = this\<lparr>tableWrapperWidth :=
                               AList.update tableId width (tableWrapperWidth this)\<rparr>
            in (case emitTableWrapperWidth this' tableId width doc of
                  Threw e doc' \<Rightarrow> Threw e (this', doc')
                | Returned doc' \<Rightarrow> calcLeftGap queryLineWidth this' tableId doc'))
         else Returned (this, doc))"

text \<open>
  \<open>for (const tableId of Object.keys(this.leftGap)) { this.calcLeftGap(tableId) }\<close>:
  the keys are taken once, before the loop.
\<close>

fun calcLeftGaps ::
  "('w \<Rightarrow> number option) \<Rightarrow> 'w TableMap \<Rightarrow> TableId list \<Rightarrow> 'w \<Rightarrow> ('w TableMap \<times> 'w) completion" where
  "calcLeftGaps queryLineWidth this [] doc = Returned (this, doc)"
| "calcLeftGaps queryLineWidth this (tableId # tableIds) doc =
     (case calcLeftGap queryLineWidth this tableId doc of
        Threw e s \<Rightarrow> Threw e s
      | Returned (this', doc') \<Rightarrow> calcLeftGaps queryLineWidth this' tableIds doc')"

definition setViewWidth ::
  "('w \<Rightarrow> number option) \<Rightarrow> 'w TableMap \<Rightarrow> number \<Rightarrow> 'w \<Rightarrow> ('w TableMap \<times> 'w) completion" where
  "setViewWidth queryLineWidth this width doc =
     (let this' = this\<lparr>viewWidth := Some width\<rparr>
      in (case emitViewWidth this' width doc of
            Threw e doc' \<Rightarrow> Threw e (this', doc')
          | Returned doc' \<Rightarrow>
              calcLeftGaps queryLineWidth this' (map fst (leftGap this')) doc'))"

subsection \<open>addChangeEventListener\<close>

text \<open>
  The event name and the callback of its type, as one tagged value. The three arrays
  exist from construction, so the branch that creates a missing array is dead code for
  the three event names the type admits.
\<close>

datatype 'w listener =
    OnTableWrapperWidth "TableId \<Rightarrow> number \<Rightarrow> 'w \<Rightarrow> 'w completion"
  | OnLeftGap "TableId \<Rightarrow> number \<Rightarrow> 'w \<Rightarrow> 'w completion"
  | OnViewWidth "number \<Rightarrow> 'w \<Rightarrow> 'w completion"

fun addChangeEventListener :: "'w TableMap \<Rightarrow> 'w listener \<Rightarrow> 'w TableMap" where
  "addChangeEventListener this (OnTableWrapperWidth callback) =
     this\<lparr>changeEventListeners := (changeEventListeners this)
       \<lparr>tableWrapperWidth_listeners :=
          tableWrapperWidth_listeners (changeEventListeners this) @ [callback]\<rparr>\<rparr>"
| "addChangeEventListener this (OnLeftGap callback) =
     this\<lparr>changeEventListeners := (changeEventListeners this)
       \<lparr>leftGap_listeners := leftGap_listeners (changeEventListeners this) @ [callback]\<rparr>\<rparr>"
| "addChangeEventListener this (OnViewWidth callback) =
     this\<lparr>changeEventListeners := (changeEventListeners this)
       \<lparr>viewWidth_listeners := viewWidth_listeners (changeEventListeners this) @ [callback]\<rparr>\<rparr>"

subsection \<open>Callers and observers\<close>

text \<open>
  The plugin calls the store from observer callbacks, one call after another. A call
  that throws ends that callback only: the store object lives on as the call left it and
  receives the next call.
\<close>

datatype 'w call =
    SetTableWrapperWidth TableId number
  | SetViewWidth number
  | AddChangeEventListener "'w listener"

fun perform ::
  "('w \<Rightarrow> number option) \<Rightarrow> 'w call \<Rightarrow> 'w TableMap \<times> 'w \<Rightarrow> ('w TableMap \<times> 'w) completion" where
  "perform queryLineWidth (SetTableWrapperWidth tableId width) (this, doc) =
     setTableWrapperWidth queryLineWidth this tableId width doc"
| "perform queryLineWidth (SetViewWidth width) (this, doc) =
     setViewWidth queryLineWidth this width doc"
| "perform queryLineWidth (AddChangeEventListener l) (this, doc) =
     Returned (addChangeEventListener this l, doc)"

fun performAll ::
  "('w \<Rightarrow> number option) \<Rightarrow> 'w call list \<Rightarrow> 'w TableMap \<times> 'w \<Rightarrow> 'w TableMap \<times> 'w" where
  "performAll queryLineWidth [] s = s"
| "performAll queryLineWidth (c # cs) s =
     performAll queryLineWidth cs (state_after (perform queryLineWidth c s))"

text \<open>
  Listeners that only write to the console, as the \<open>tableWrapperWidth\<close> listener of the
  plugin does (\<open>console.log\<close>). The console is the list of the lines written, each with
  the name of the listener that wrote it.
\<close>

datatype notification =
    TableWrapperWidthChanged TableId number
  | LeftGapChanged TableId number
  | ViewWidthChanged number

type_synonym console = "(string \<times> notification) list"

definition logTableWrapperWidth :: "string \<Rightarrow> TableId \<Rightarrow> number \<Rightarrow> console \<Rightarrow> console completion" where
  "logTableWrapperWidth name tableId width console =
     Returned (console @ [(name, TableWrapperWidthChanged tableId width)])"

definition logLeftGap :: "string \<Rightarrow> TableId \<Rightarrow> number \<Rightarrow> console \<Rightarrow> console completion" where
  "logLeftGap name tableId left console =
     Returned (console @ [(name, LeftGapChanged tableId left)])"

definition logViewWidth :: "string \<Rightarrow> number \<Rightarrow> console \<Rightarrow> console completion" where
  "logViewWidth name width console = Returned (console @ [(name, ViewWidthChanged width)])"

definition loggers :: "string list \<Rightarrow> string list \<Rightarrow> string list \<Rightarrow> console ChangeEventListeners" where
  "loggers ws gs vs =
     \<lparr>tableWrapperWidth_listeners = map logTableWrapperWidth ws,
      leftGap_listeners = map logLeftGap gs,
      viewWidth_listeners = map logViewWidth vs\<rparr>"

text \<open>
  The store with one console listener for each event, and a document whose
  \<open>.cm-contentContainer\<close> is \<open>L\<close> pixels wide, and one without that element.
\<close>

definition loggedStore :: "console TableMap" where
  "loggedStore = new_TableMap\<lparr>changeEventListeners := loggers [''w''] [''g''] [''v'']\<rparr>"

definition lineWidthIs :: "number \<Rightarrow> 'w \<Rightarrow> number option" where
  "lineWidthIs L doc = Some L"

definition noLineWidth :: "'w \<Rightarrow> number option" where
  "noLineWidth doc = None"

text \<open>
  A \<open>leftGap\<close> listener that throws for one table and writes to the console for the
  others, as the \<open>leftGap\<close> listener of the plugin throws when the element it finds
  for the table is not an \<open>HTMLElement\<close>.
\<close>

definition rejectTable :: "TableId \<Rightarrow> TableId \<Rightarrow> number \<Rightarrow> console \<Rightarrow> console completion" where
  "rejectTable bad tableId left console =
     (if tableId = bad
      then Threw (Error (''tableWidgetElement is not an HTMLElement: '' @ tableId)) console
      else Returned (console @ [(''style'', LeftGapChanged tableId left)]))"

definition styledStore :: "console TableMap" where
  "styledStore =
     new_TableMap\<lparr>changeEventListeners :=
       \<lparr>tableWrapperWidth_listeners = [logTableWrapperWidth ''w''],
        leftGap_listeners = [rejectTable ''t2''],
        viewWidth_listeners = [logViewWidth ''v'']\<rparr>\<rparr>"

text \<open>
  What a recomputation that passes its checks does: it leaves the store with the new
  left gap written, and it completes as the \<open>leftGap\<close> loop completes.
\<close>

definition storesAndPublishes ::
  "('w TableMap \<times> 'w) completion \<Rightarrow> 'w TableMap \<Rightarrow> TableId \<Rightarrow> number \<Rightarrow> 'w \<Rightarrow> bool" where
  "storesAndPublishes r this tableId g doc \<longleftrightarrow>
     fst (state_after r) = this\<lparr>leftGap := AList.update tableId g (leftGap this)\<rparr> \<and>
     map_completion snd r = emitLeftGap this tableId g doc"

text \<open>
  A property of a store: every left gap stored is zero or positive. And a property of a
  sequence of calls: every call returns.
\<close>

definition gapsNonNegative :: "'w TableMap \<Rightarrow> bool" where
  "gapsNonNegative this \<longleftrightarrow> (\<forall>tableId g. map_of (leftGap this) tableId = Some g \<longrightarrow> 0 \<le> g)"

text \<open>
  The recomputations a call makes: for every \<open>calcLeftGap\<close> that passes its three
  checks, in the order of the run, the wrapper width, the line width it read and the view
  width stored at that moment. These functions follow the operations step by step and
  change nothing.
\<close>

definition calcLeftGapReads ::
  "('w \<Rightarrow> number option) \<Rightarrow> 'w TableMap \<Rightarrow> TableId \<Rightarrow> 'w
     \<Rightarrow> (number \<times> number \<times> number) list" where
  "calcLeftGapReads queryLineWidth this tableId doc =
     (case map_of (tableWrapperWidth this) tableId of
        None \<Rightarrow> []
      | Some wrapperWidth \<Rightarrow>
          (case viewWidth this of
             None \<Rightarrow> []
           | Some view \<Rightarrow>
               (case queryLineWidth doc of
                  None \<Rightarrow> []
                | Some lineWidth \<Rightarrow> [(wrapperWidth, lineWidth, view)])))"

fun calcLeftGapsReads ::
  "('w \<Rightarrow> number option) \<Rightarrow> 'w TableMap \<Rightarrow> TableId list \<Rightarrow> 'w
     \<Rightarrow> (number \<times> number \<times> number) list" where
  "calcLeftGapsReads queryLineWidth this [] doc = []"
| "calcLeftGapsReads queryLineWidth this (tableId # tableIds) doc =
     calcLeftGapReads queryLineWidth this tableId doc @
     (case calcLeftGap queryLineWidth this tableId doc of
        Threw e s \<Rightarrow> []
      | Returned (this', doc') \<Rightarrow> calcLeftGapsReads queryLineWidth this' tableIds doc')"

definition setTableWrapperWidthReads ::
  "('w \<Rightarrow> number option) \<Rightarrow> 'w TableMap \<Rightarrow> TableId \<Rightarrow> number \<Rightarrow> 'w
     \<Rightarrow> (number \<times> number \<times> number) list" where
  "setTableWrapperWidthReads queryLineWidth this tableId width doc =
     (if map_of (tableWrapperWidth this) tableId \<noteq> Some width then
        (let this' = this\<lparr>tableWrapperWidth :=
                            AList.update tableId width (tableWrapperWidth this)\<rparr>
         in (case emitTableWrapperWidth this' tableId width doc of
               Threw e doc' \<Rightarrow> []
             | Returned doc' \<Rightarrow> calcLeftGapReads queryLineWidth this' tableId doc'))
      else [])"

definition setViewWidthReads ::
  "('w \<Rightarrow> number option) \<Rightarrow> 'w TableMap \<Rightarrow> number \<Rightarrow> 'w
     \<Rightarrow> (number \<times> number \<times> number) list" where
  "setViewWidthReads queryLineWidth this width doc =
     (let this' = this\<lparr>viewWidth := Some width\<rparr>
      in (case emitViewWidth this' width doc of
            Threw e doc' \<Rightarrow> []
          | Returned doc' \<Rightarrow>
              calcLeftGapsReads queryLineWidth this' (map fst (leftGap this')) doc'))"

fun performReads ::
  "('w \<Rightarrow> number option) \<Rightarrow> 'w call \<Rightarrow> 'w TableMap \<times> 'w
     \<Rightarrow> (number \<times> number \<times> number) list" where
  "performReads queryLineWidth (SetTableWrapperWidth tableId width) (this, doc) =
     setTableWrapperWidthReads queryLineWidth this tableId width doc"
| "performReads queryLineWidth (SetViewWidth width) (this, doc) =
     setViewWidthReads queryLineWidth this width doc"
| "performReads queryLineWidth (AddChangeEventListener l) (this, doc) = []"

fun performAllReads ::
  "('w \<Rightarrow> number option) \<Rightarrow> 'w call list \<Rightarrow> 'w TableMap \<times> 'w
     \<Rightarrow> (number \<times> number \<times> number) list" where
  "performAllReads queryLineWidth [] s = []"
| "performAllReads queryLineWidth (c # cs) s =
     performReads queryLineWidth c s @
     performAllReads queryLineWidth cs (state_after (perform queryLineWidth c s))"

fun allReturned ::
  "('w \<Rightarrow> number option) \<Rightarrow> 'w call list \<Rightarrow> 'w TableMap \<times> 'w \<Rightarrow> bool" where
  "allReturned queryLineWidth [] s = True"
| "allReturned queryLineWidth (c # cs) s =
     (case perform queryLineWidth c s of
        Returned s' \<Rightarrow> allReturned queryLineWidth cs s'
      | Threw e s' \<Rightarrow> False)"

section \<open>Recomputing the left gap\<close>

lemma emitLeftGap_leftGap_update:
  "emitLeftGap (this\<lparr>leftGap := x\<rparr>) = emitLeftGap this"
  by (simp add: emitLeftGap_def fun_eq_iff)

text \<open>
  Once the three checks have passed, \<open>calcLeftGap\<close> is: write the new left gap, run the
  \<open>leftGap\<close> listeners with it, and complete as they do.
\<close>

lemma calcLeftGap_checked:
  assumes "map_of (tableWrapperWidth this) tableId = Some w"
    and "viewWidth this = Some V"
    and "queryLineWidth doc = Some L"
  shows "calcLeftGap queryLineWidth this tableId doc =
           map_completion
             (Pair (this\<lparr>leftGap := AList.update tableId (newLeftGap w L V) (leftGap this)\<rparr>))
             (emitLeftGap this tableId (newLeftGap w L V) doc)"
  using assms
  by (simp add: calcLeftGap_def emitLeftGap_leftGap_update Let_def split: completion.splits)

lemma storesAndPublishes_checked:
  assumes "map_of (tableWrapperWidth this) tableId = Some w"
    and "viewWidth this = Some V"
    and "queryLineWidth doc = Some L"
  shows "storesAndPublishes (calcLeftGap queryLineWidth this tableId doc) this tableId
           (newLeftGap w L V) doc"
  unfolding calcLeftGap_checked [of this tableId w V queryLineWidth doc L, OF assms]
    storesAndPublishes_def
  by (cases "emitLeftGap this tableId (newLeftGap w L V) doc") simp_all

lemma storesAndPublishes_stored:
  "storesAndPublishes r this tableId g doc \<Longrightarrow>
     map_of (leftGap (fst (state_after r))) tableId = Some g"
  by (simp add: storesAndPublishes_def update_conv')

text \<open>
  Claim C1. For an entity whose wrapper width \<open>w\<close> is stored, with the view width \<open>V\<close>
  stored and the line width \<open>L\<close> readable, \<open>calcLeftGap\<close> stores and publishes \<open>0\<close>
  when \<open>w < L\<close>, \<open>(w - L) / 2\<close> when \<open>L < w < V\<close>, and \<open>(V - L) / 2\<close> otherwise,
  that is when neither of the two conditions holds; in particular it does so whenever
  \<open>w \<ge> V\<close> and the first case does not apply, which is every \<open>w \<ge> V\<close> when the
  line is not wider than the view. The value is stored whether or not a listener throws,
  and the call completes as the \<open>leftGap\<close> listeners do.
\<close>

theorem calcLeftGap_piecewise:
  assumes "map_of (tableWrapperWidth this) tableId = Some w"
    and "viewWidth this = Some V"
    and "queryLineWidth doc = Some L"
  shows "(w < L \<longrightarrow>
            storesAndPublishes (calcLeftGap queryLineWidth this tableId doc) this tableId 0 doc) \<and>
         (L < w \<and> w < V \<longrightarrow>
            storesAndPublishes (calcLeftGap queryLineWidth this tableId doc) this tableId
              ((w - L) / 2) doc) \<and>
         (\<not> w < L \<and> \<not> (L < w \<and> w < V) \<longrightarrow>
            storesAndPublishes (calcLeftGap queryLineWidth this tableId doc) this tableId
              ((V - L) / 2) doc) \<and>
         (\<not> w < L \<and> V \<le> w \<longrightarrow>
            storesAndPublishes (calcLeftGap queryLineWidth this tableId doc) this tableId
              ((V - L) / 2) doc) \<and>
         (L \<le> V \<and> V \<le> w \<longrightarrow>
            storesAndPublishes (calcLeftGap queryLineWidth this tableId doc) this tableId
              ((V - L) / 2) doc)"
  using storesAndPublishes_checked [of this tableId w V queryLineWidth doc L, OF assms]
  by (auto simp: newLeftGap_def)

text \<open>
  With a line of 400 and a view of 1000: a wrapper of 300 gives 0, one of 700 gives 150,
  one of 1400 gives 300, each written to the store and to the console.
\<close>

theorem calcLeftGap_piecewise_witness:
  "calcLeftGap (lineWidthIs 400)
     (loggedStore\<lparr>viewWidth := Some 1000, tableWrapperWidth := [(''t1'', 300)]\<rparr>) ''t1'' [] =
     Returned (loggedStore\<lparr>viewWidth := Some 1000, tableWrapperWidth := [(''t1'', 300)],
                 leftGap := [(''t1'', 0)]\<rparr>, [(''g'', LeftGapChanged ''t1'' 0)]) \<and>
   calcLeftGap (lineWidthIs 400)
     (loggedStore\<lparr>viewWidth := Some 1000, tableWrapperWidth := [(''t1'', 700)]\<rparr>) ''t1'' [] =
     Returned (loggedStore\<lparr>viewWidth := Some 1000, tableWrapperWidth := [(''t1'', 700)],
                 leftGap := [(''t1'', 150)]\<rparr>, [(''g'', LeftGapChanged ''t1'' 150)]) \<and>
   calcLeftGap (lineWidthIs 400)
     (loggedStore\<lparr>viewWidth := Some 1000, tableWrapperWidth := [(''t1'', 1400)]\<rparr>) ''t1'' [] =
     Returned (loggedStore\<lparr>viewWidth := Some 1000, tableWrapperWidth := [(''t1'', 1400)],
                 leftGap := [(''t1'', 300)]\<rparr>, [(''g'', LeftGapChanged ''t1'' 300)])"
  using
    calcLeftGap_piecewise [of "loggedStore\<lparr>viewWidth := Some 1000, tableWrapperWidth := [(''t1'', 300)]\<rparr>"
      "''t1''" 300 1000 "lineWidthIs 400" "[]" 400]
    calcLeftGap_piecewise [of "loggedStore\<lparr>viewWidth := Some 1000, tableWrapperWidth := [(''t1'', 700)]\<rparr>"
      "''t1''" 700 1000 "lineWidthIs 400" "[]" 400]
    calcLeftGap_piecewise [of "loggedStore\<lparr>viewWidth := Some 1000, tableWrapperWidth := [(''t1'', 1400)]\<rparr>"
      "''t1''" 1400 1000 "lineWidthIs 400" "[]" 400]
  by (simp add: lineWidthIs_def calcLeftGap_def newLeftGap_def loggedStore_def new_TableMap_def
      loggers_def emitLeftGap_def logLeftGap_def)

text \<open>
  Claim C9. When the wrapper is exactly as wide as a line, and a line is narrower than the
  view, both strict comparisons fail: the value stored and published is the clamped one,
  \<open>(V - L) / 2\<close>, which is positive, and so neither the zero of the first branch nor
  the \<open>(w - L) / 2 = 0\<close> of the second.
\<close>

theorem calcLeftGap_wrapper_equals_line:
  assumes "map_of (tableWrapperWidth this) tableId = Some L"
    and "viewWidth this = Some V"
    and "queryLineWidth doc = Some L"
    and "L < V"
  shows "\<not> L < L \<and> \<not> (L < L \<and> L < V) \<and>
         storesAndPublishes (calcLeftGap queryLineWidth this tableId doc) this tableId
           ((V - L) / 2) doc \<and>
         map_of (leftGap (fst (state_after (calcLeftGap queryLineWidth this tableId doc)))) tableId =
           Some ((V - L) / 2) \<and>
         0 < (V - L) / 2"
proof -
  have g: "newLeftGap L L V = (V - L) / 2"
    by (simp add: newLeftGap_def)
  have sp: "storesAndPublishes (calcLeftGap queryLineWidth this tableId doc) this tableId
              ((V - L) / 2) doc"
    using storesAndPublishes_checked [of this tableId L V queryLineWidth doc L] assms g by simp
  from sp storesAndPublishes_stored [OF sp] \<open>L < V\<close> show ?thesis by simp
qed

text \<open>A wrapper of 400 on a line of 400 in a view of 1000: the left gap is 300.\<close>

theorem calcLeftGap_wrapper_equals_line_witness:
  "calcLeftGap (lineWidthIs 400)
     (loggedStore\<lparr>viewWidth := Some 1000, tableWrapperWidth := [(''t1'', 400)]\<rparr>) ''t1'' [] =
     Returned (loggedStore\<lparr>viewWidth := Some 1000, tableWrapperWidth := [(''t1'', 400)],
                 leftGap := [(''t1'', 300)]\<rparr>, [(''g'', LeftGapChanged ''t1'' 300)]) \<and>
   storesAndPublishes
     (calcLeftGap (lineWidthIs 400)
        (loggedStore\<lparr>viewWidth := Some 1000, tableWrapperWidth := [(''t1'', 400)]\<rparr>) ''t1'' [])
     (loggedStore\<lparr>viewWidth := Some 1000, tableWrapperWidth := [(''t1'', 400)]\<rparr>) ''t1'' 300 []"
  using calcLeftGap_wrapper_equals_line
    [of "loggedStore\<lparr>viewWidth := Some 1000, tableWrapperWidth := [(''t1'', 400)]\<rparr>"
      "''t1''" 400 1000 "lineWidthIs 400" "[]"]
  by (simp add: lineWidthIs_def calcLeftGap_def newLeftGap_def loggedStore_def new_TableMap_def
      loggers_def emitLeftGap_def logLeftGap_def)

text \<open>
  Claim C6. A recomputation that does not fail at one of its three checks writes the newly
  computed left gap and runs the \<open>leftGap\<close> listeners with the entity and that value,
  whatever left gap was stored before: the left gap stored before is never read, there is
  no change detection, and the call completes as the listeners do. Conversely a
  recomputation that returns has passed the three checks, written the value and run the
  listeners.
\<close>

theorem calcLeftGap_republishes:
  "(map_of (tableWrapperWidth this) tableId = Some w \<and> viewWidth this = Some V \<and>
    queryLineWidth doc = Some L \<longrightarrow>
      calcLeftGap queryLineWidth this tableId doc =
        map_completion
          (Pair (this\<lparr>leftGap := AList.update tableId (newLeftGap w L V) (leftGap this)\<rparr>))
          (emitLeftGap this tableId (newLeftGap w L V) doc) \<and>
      storesAndPublishes (calcLeftGap queryLineWidth this tableId doc) this tableId
        (newLeftGap w L V) doc \<and>
      map_of (leftGap (fst (state_after (calcLeftGap queryLineWidth this tableId doc)))) tableId =
        Some (newLeftGap w L V)) \<and>
   (calcLeftGap queryLineWidth this tableId doc = Returned (this', doc') \<longrightarrow>
      (\<exists>w V L. map_of (tableWrapperWidth this) tableId = Some w \<and> viewWidth this = Some V \<and>
         queryLineWidth doc = Some L \<and>
         this' = this\<lparr>leftGap := AList.update tableId (newLeftGap w L V) (leftGap this)\<rparr> \<and>
         emitLeftGap this tableId (newLeftGap w L V) doc = Returned doc'))"
proof (rule conjI)
  show "map_of (tableWrapperWidth this) tableId = Some w \<and> viewWidth this = Some V \<and>
    queryLineWidth doc = Some L \<longrightarrow>
      calcLeftGap queryLineWidth this tableId doc =
        map_completion
          (Pair (this\<lparr>leftGap := AList.update tableId (newLeftGap w L V) (leftGap this)\<rparr>))
          (emitLeftGap this tableId (newLeftGap w L V) doc) \<and>
      storesAndPublishes (calcLeftGap queryLineWidth this tableId doc) this tableId
        (newLeftGap w L V) doc \<and>
      map_of (leftGap (fst (state_after (calcLeftGap queryLineWidth this tableId doc)))) tableId =
        Some (newLeftGap w L V)"
  proof (rule impI)
    assume a: "map_of (tableWrapperWidth this) tableId = Some w \<and> viewWidth this = Some V \<and>
      queryLineWidth doc = Some L"
    have sp: "storesAndPublishes (calcLeftGap queryLineWidth this tableId doc) this tableId
        (newLeftGap w L V) doc"
      using storesAndPublishes_checked [of this tableId w V queryLineWidth doc L] a by simp
    from calcLeftGap_checked [of this tableId w V queryLineWidth doc L] a sp
      storesAndPublishes_stored [OF sp]
    show "calcLeftGap queryLineWidth this tableId doc =
        map_completion
          (Pair (this\<lparr>leftGap := AList.update tableId (newLeftGap w L V) (leftGap this)\<rparr>))
          (emitLeftGap this tableId (newLeftGap w L V) doc) \<and>
      storesAndPublishes (calcLeftGap queryLineWidth this tableId doc) this tableId
        (newLeftGap w L V) doc \<and>
      map_of (leftGap (fst (state_after (calcLeftGap queryLineWidth this tableId doc)))) tableId =
        Some (newLeftGap w L V)"
      by simp
  qed
next
  show "calcLeftGap queryLineWidth this tableId doc = Returned (this', doc') \<longrightarrow>
      (\<exists>w V L. map_of (tableWrapperWidth this) tableId = Some w \<and> viewWidth this = Some V \<and>
         queryLineWidth doc = Some L \<and>
         this' = this\<lparr>leftGap := AList.update tableId (newLeftGap w L V) (leftGap this)\<rparr> \<and>
         emitLeftGap this tableId (newLeftGap w L V) doc = Returned doc')"
    by (auto simp: calcLeftGap_def emitLeftGap_leftGap_update Let_def
        split: option.splits completion.splits)
qed

text \<open>
  The left gap of the entity is 150 already and the recomputation gives 150 again: the
  listener is called all the same, as it is when the left gap stored was 0.
\<close>

theorem calcLeftGap_republishes_witness:
  "calcLeftGap (lineWidthIs 400)
     (loggedStore\<lparr>viewWidth := Some 1000, tableWrapperWidth := [(''t1'', 700)],
        leftGap := [(''t1'', 150)]\<rparr>) ''t1'' [] =
     Returned (loggedStore\<lparr>viewWidth := Some 1000, tableWrapperWidth := [(''t1'', 700)],
        leftGap := [(''t1'', 150)]\<rparr>, [(''g'', LeftGapChanged ''t1'' 150)]) \<and>
   newLeftGap 700 400 1000 = 150 \<and>
   emitLeftGap (loggedStore\<lparr>viewWidth := Some 1000, tableWrapperWidth := [(''t1'', 700)],
        leftGap := [(''t1'', 150)]\<rparr>) ''t1'' 150 [] =
      Returned [(''g'', LeftGapChanged ''t1'' 150)] \<and>
   calcLeftGap (lineWidthIs 400)
     (loggedStore\<lparr>viewWidth := Some 1000, tableWrapperWidth := [(''t1'', 700)],
        leftGap := [(''t1'', 0)]\<rparr>) ''t1'' [] =
     Returned (loggedStore\<lparr>viewWidth := Some 1000, tableWrapperWidth := [(''t1'', 700)],
        leftGap := [(''t1'', 150)]\<rparr>, [(''g'', LeftGapChanged ''t1'' 150)])"
proof -
  let ?S = "loggedStore\<lparr>viewWidth := Some 1000, tableWrapperWidth := [(''t1'', 700)],
        leftGap := [(''t1'', 150)]\<rparr>"
  let ?T = "loggedStore\<lparr>viewWidth := Some 1000, tableWrapperWidth := [(''t1'', 700)],
        leftGap := [(''t1'', 0)]\<rparr>"
  have g: "newLeftGap 700 400 1000 = 150"
    by (simp add: newLeftGap_def)
  have e: "emitLeftGap ?S ''t1'' 150 [] = Returned [(''g'', LeftGapChanged ''t1'' 150)]"
    "emitLeftGap ?T ''t1'' 150 [] = Returned [(''g'', LeftGapChanged ''t1'' 150)]"
    by (simp_all add: loggedStore_def new_TableMap_def loggers_def emitLeftGap_def logLeftGap_def)
  have d: "map_of (tableWrapperWidth ?S) ''t1'' = Some 700 \<and> viewWidth ?S = Some 1000 \<and>
      lineWidthIs 400 ([] :: console) = Some 400"
    "map_of (tableWrapperWidth ?T) ''t1'' = Some 700 \<and> viewWidth ?T = Some 1000 \<and>
      lineWidthIs 400 ([] :: console) = Some 400"
    by (simp_all add: lineWidthIs_def)
  from d g e
    calcLeftGap_republishes [where this = ?S and tableId = "''t1''" and w = 700 and V = 1000
      and queryLineWidth = "lineWidthIs 400" and doc = "[]" and L = 400 and this' = ?S
      and doc' = "[(''g'', LeftGapChanged ''t1'' 150)]"]
    calcLeftGap_republishes [where this = ?T and tableId = "''t1''" and w = 700 and V = 1000
      and queryLineWidth = "lineWidthIs 400" and doc = "[]" and L = 400 and this' = ?S
      and doc' = "[(''g'', LeftGapChanged ''t1'' 150)]"]
  show ?thesis by simp
qed

text \<open>
  Claim C3. \<open>calcLeftGap\<close> throws, with the store and the document untouched (so no
  default is stored), when the wrapper width of the entity is undefined, or the view width
  is undefined, or the line width cannot be read. When all three are defined the new left
  gap is stored, and the call throws only what a \<open>leftGap\<close> listener throws: none of
  the three checks is taken.
\<close>

theorem calcLeftGap_missing_dependency:
  "(map_of (tableWrapperWidth this) tableId = None \<longrightarrow>
      calcLeftGap queryLineWidth this tableId doc =
        Threw (Error (''tableWrapperWidth not found in tableMap: '' @ tableId)) (this, doc)) \<and>
   (map_of (tableWrapperWidth this) tableId \<noteq> None \<and> viewWidth this = None \<longrightarrow>
      calcLeftGap queryLineWidth this tableId doc =
        Threw (Error ''viewWidth is not initialized'') (this, doc)) \<and>
   (map_of (tableWrapperWidth this) tableId \<noteq> None \<and> viewWidth this \<noteq> None \<and>
    queryLineWidth doc = None \<longrightarrow>
      calcLeftGap queryLineWidth this tableId doc =
        Threw (Error ''lineWidth is not initialized'') (this, doc)) \<and>
   (map_of (tableWrapperWidth this) tableId = Some w \<and> viewWidth this = Some V \<and>
    queryLineWidth doc = Some L \<longrightarrow>
      map_of (leftGap (fst (state_after (calcLeftGap queryLineWidth this tableId doc)))) tableId =
        Some (newLeftGap w L V) \<and>
      (\<forall>e s. calcLeftGap queryLineWidth this tableId doc = Threw e s \<longrightarrow>
         emitLeftGap this tableId (newLeftGap w L V) doc = Threw e (snd s)))"
proof -
  have "map_of (leftGap (fst (state_after (calcLeftGap queryLineWidth this tableId doc)))) tableId =
          Some (newLeftGap w L V) \<and>
        (\<forall>e s. calcLeftGap queryLineWidth this tableId doc = Threw e s \<longrightarrow>
           emitLeftGap this tableId (newLeftGap w L V) doc = Threw e (snd s))"
    if "map_of (tableWrapperWidth this) tableId = Some w" "viewWidth this = Some V"
      "queryLineWidth doc = Some L"
    unfolding calcLeftGap_checked [of this tableId w V queryLineWidth doc L, OF that]
    by (cases "emitLeftGap this tableId (newLeftGap w L V) doc") (auto simp: update_conv')
  then show ?thesis
    by (auto simp: calcLeftGap_def)
qed

text \<open>
  An unknown entity, an entity measured before the view, and a document without the
  content container: each throws and leaves the store as it was. With all three present
  the left gap is stored.
\<close>

theorem calcLeftGap_missing_dependency_witness:
  "calcLeftGap (lineWidthIs 400) loggedStore ''t1'' [] =
     Threw (Error ''tableWrapperWidth not found in tableMap: t1'') (loggedStore, []) \<and>
   calcLeftGap (lineWidthIs 400) (loggedStore\<lparr>tableWrapperWidth := [(''t1'', 700)]\<rparr>) ''t1'' [] =
     Threw (Error ''viewWidth is not initialized'')
       (loggedStore\<lparr>tableWrapperWidth := [(''t1'', 700)]\<rparr>, []) \<and>
   calcLeftGap noLineWidth
     (loggedStore\<lparr>viewWidth := Some 1000, tableWrapperWidth := [(''t1'', 700)]\<rparr>) ''t1'' [] =
     Threw (Error ''lineWidth is not initialized'')
       (loggedStore\<lparr>viewWidth := Some 1000, tableWrapperWidth := [(''t1'', 700)]\<rparr>, []) \<and>
   map_of (leftGap (fst (state_after (calcLeftGap (lineWidthIs 400)
     (loggedStore\<lparr>viewWidth := Some 1000, tableWrapperWidth := [(''t1'', 700)]\<rparr>) ''t1'' []))))
     ''t1'' = Some 150"
  using
    calcLeftGap_missing_dependency [of loggedStore "''t1''" "lineWidthIs 400" "[]" 0 0 0]
    calcLeftGap_missing_dependency [of "loggedStore\<lparr>tableWrapperWidth := [(''t1'', 700)]\<rparr>"
      "''t1''" "lineWidthIs 400" "[]" 0 0 0]
    calcLeftGap_missing_dependency
      [of "loggedStore\<lparr>viewWidth := Some 1000, tableWrapperWidth := [(''t1'', 700)]\<rparr>"
      "''t1''" noLineWidth "[]" 0 0 0]
    calcLeftGap_missing_dependency
      [of "loggedStore\<lparr>viewWidth := Some 1000, tableWrapperWidth := [(''t1'', 700)]\<rparr>"
      "''t1''" "lineWidthIs 400" "[]" 700 1000 400]
  by (simp add: lineWidthIs_def noLineWidth_def newLeftGap_def loggedStore_def new_TableMap_def)

section \<open>What the operations leave unchanged\<close>

lemma calcLeftGap_store:
  "fst (state_after (calcLeftGap queryLineWidth this tableId doc)) = this \<or>
   (\<exists>g. fst (state_after (calcLeftGap queryLineWidth this tableId doc)) =
      this\<lparr>leftGap := AList.update tableId g (leftGap this)\<rparr>)"
  by (auto simp: calcLeftGap_def Let_def split: option.splits completion.splits)

lemma calcLeftGap_keeps:
  assumes "this' = fst (state_after (calcLeftGap queryLineWidth this tableId doc))"
  shows "tableWrapperWidth this' = tableWrapperWidth this \<and>
         viewWidth this' = viewWidth this \<and>
         changeEventListeners this' = changeEventListeners this \<and>
         (tableId' \<noteq> tableId \<longrightarrow> map_of (leftGap this') tableId' = map_of (leftGap this) tableId')"
  using calcLeftGap_store [of queryLineWidth this tableId doc] assms
  by (auto simp: update_conv')

lemma calcLeftGaps_keeps:
  "tableWrapperWidth (fst (state_after (calcLeftGaps queryLineWidth this tableIds doc))) =
     tableWrapperWidth this \<and>
   viewWidth (fst (state_after (calcLeftGaps queryLineWidth this tableIds doc))) =
     viewWidth this \<and>
   changeEventListeners (fst (state_after (calcLeftGaps queryLineWidth this tableIds doc))) =
     changeEventListeners this"
proof (induction tableIds arbitrary: this doc)
  case Nil
  show ?case by simp
next
  case (Cons tableId tableIds)
  show ?case
  proof (cases "calcLeftGap queryLineWidth this tableId doc")
    case (Returned s)
    obtain this' doc' where s: "s = (this', doc')" by (cases s)
    have "this' = fst (state_after (calcLeftGap queryLineWidth this tableId doc))"
      using Returned s by simp
    from calcLeftGap_keeps [OF this] Cons.IH [of this' doc'] Returned s
    show ?thesis by simp
  next
    case (Threw e s)
    have "fst s = fst (state_after (calcLeftGap queryLineWidth this tableId doc))"
      using Threw by simp
    from calcLeftGap_keeps [OF this] Threw show ?thesis by simp
  qed
qed

lemma setTableWrapperWidth_store:
  assumes "this' = fst (state_after (setTableWrapperWidth queryLineWidth this tableId width doc))"
  shows "map_of (tableWrapperWidth this') tableId = Some width \<and>
    (tableId' \<noteq> tableId \<longrightarrow>
           map_of (tableWrapperWidth this') tableId' = map_of (tableWrapperWidth this) tableId') \<and>
    (tableId' \<noteq> tableId \<longrightarrow> map_of (leftGap this') tableId' = map_of (leftGap this) tableId') \<and>
    viewWidth this' = viewWidth this \<and>
    changeEventListeners this' = changeEventListeners this"
proof -
  let ?this1 = "this\<lparr>tableWrapperWidth := AList.update tableId width (tableWrapperWidth this)\<rparr>"
  have "this' = this \<and> map_of (tableWrapperWidth this) tableId = Some width \<or>
        this' = ?this1 \<or>
        (\<exists>doc'. this' = fst (state_after (calcLeftGap queryLineWidth ?this1 tableId doc')))"
    unfolding assms
    by (auto simp: setTableWrapperWidth_def Let_def split: completion.splits)
  then consider
      (same) "this' = this" "map_of (tableWrapperWidth this) tableId = Some width"
    | (written) "this' = ?this1"
    | (calc) doc' where "this' = fst (state_after (calcLeftGap queryLineWidth ?this1 tableId doc'))"
    by blast
  then show ?thesis
  proof cases
    case same
    then show ?thesis by simp
  next
    case written
    then show ?thesis by (simp add: update_conv')
  next
    case calc
    from calcLeftGap_keeps [OF this, of tableId'] show ?thesis
      by (simp add: update_conv')
  qed
qed

lemma setViewWidth_store:
  assumes "this' = fst (state_after (setViewWidth queryLineWidth this width doc))"
  shows "viewWidth this' = Some width \<and> tableWrapperWidth this' = tableWrapperWidth this \<and>
    changeEventListeners this' = changeEventListeners this"
proof -
  let ?this1 = "this\<lparr>viewWidth := Some width\<rparr>"
  have "this' = ?this1 \<or>
        (\<exists>doc'. this' = fst (state_after
           (calcLeftGaps queryLineWidth ?this1 (map fst (leftGap this)) doc')))"
    unfolding assms
    by (auto simp: setViewWidth_def Let_def split: completion.splits)
  then show ?thesis
    using calcLeftGaps_keeps [of queryLineWidth ?this1 "map fst (leftGap this)"]
    by auto
qed

text \<open>
  Claim C10. \<open>setTableWrapperWidth\<close> for one entity leaves the stored wrapper width
  and the stored left gap of every other entity as they were, and \<open>setViewWidth\<close>
  leaves the wrapper widths of all entities (and the listeners) as they were: it writes
  the view width and left gaps only. Both hold however the call completes.
\<close>

theorem setters_frame:
  "(tableId' \<noteq> tableId \<longrightarrow>
      map_of (tableWrapperWidth
        (fst (state_after (setTableWrapperWidth queryLineWidth this tableId w doc)))) tableId' =
        map_of (tableWrapperWidth this) tableId' \<and>
      map_of (leftGap
        (fst (state_after (setTableWrapperWidth queryLineWidth this tableId w doc)))) tableId' =
        map_of (leftGap this) tableId') \<and>
   tableWrapperWidth (fst (state_after (setViewWidth queryLineWidth this v doc))) =
     tableWrapperWidth this \<and>
   changeEventListeners (fst (state_after (setViewWidth queryLineWidth this v doc))) =
     changeEventListeners this"
  using setTableWrapperWidth_store [OF refl, of queryLineWidth this tableId w doc tableId']
    setViewWidth_store [OF refl, of queryLineWidth this v doc]
  by simp

text \<open>
  With \<open>t1\<close> at width 700 and left gap 150: measuring \<open>t2\<close> leaves both, and a view of
  1200 leaves the width.
\<close>

theorem setters_frame_witness:
  "map_of (tableWrapperWidth (fst (state_after (setTableWrapperWidth (lineWidthIs 400)
     (loggedStore\<lparr>viewWidth := Some 1000, tableWrapperWidth := [(''t1'', 700)],
        leftGap := [(''t1'', 150)]\<rparr>) ''t2'' 1400 [])))) ''t1'' = Some 700 \<and>
   map_of (leftGap (fst (state_after (setTableWrapperWidth (lineWidthIs 400)
     (loggedStore\<lparr>viewWidth := Some 1000, tableWrapperWidth := [(''t1'', 700)],
        leftGap := [(''t1'', 150)]\<rparr>) ''t2'' 1400 [])))) ''t1'' = Some 150 \<and>
   tableWrapperWidth (fst (state_after (setViewWidth (lineWidthIs 400)
     (loggedStore\<lparr>viewWidth := Some 1000, tableWrapperWidth := [(''t1'', 700)],
        leftGap := [(''t1'', 150)]\<rparr>) 1200 []))) = [(''t1'', 700)]"
  using setters_frame [of "''t1''" "''t2''" "lineWidthIs 400"
      "loggedStore\<lparr>viewWidth := Some 1000, tableWrapperWidth := [(''t1'', 700)],
        leftGap := [(''t1'', 150)]\<rparr>" 1400 "[]" 1200]
  by (simp add: loggedStore_def new_TableMap_def)

section \<open>Listeners that write to the console\<close>

lemma forEachCallback_Returned:
  "forEachCallback calls doc = Returned doc' \<Longrightarrow>
     doc' = foldl (\<lambda>d call. state_after (call d)) doc calls"
  by (induction calls arbitrary: doc) (auto split: completion.splits)

lemma forEachCallback_logTableWrapperWidth:
  "forEachCallback (map (\<lambda>name. logTableWrapperWidth name tableId w) names) console =
     Returned (console @ map (\<lambda>name. (name, TableWrapperWidthChanged tableId w)) names)"
  by (induction names arbitrary: console) (simp_all add: logTableWrapperWidth_def)

lemma forEachCallback_logLeftGap:
  "forEachCallback (map (\<lambda>name. logLeftGap name tableId g) names) console =
     Returned (console @ map (\<lambda>name. (name, LeftGapChanged tableId g)) names)"
  by (induction names arbitrary: console) (simp_all add: logLeftGap_def)

lemma forEachCallback_logViewWidth:
  "forEachCallback (map (\<lambda>name. logViewWidth name v) names) console =
     Returned (console @ map (\<lambda>name. (name, ViewWidthChanged v)) names)"
  by (induction names arbitrary: console) (simp_all add: logViewWidth_def)

lemma emit_loggers:
  assumes "changeEventListeners this = loggers ws gs vs"
  shows "emitTableWrapperWidth this tableId w console =
           Returned (console @ map (\<lambda>name. (name, TableWrapperWidthChanged tableId w)) ws)"
    and "emitLeftGap this tableId g console =
           Returned (console @ map (\<lambda>name. (name, LeftGapChanged tableId g)) gs)"
    and "emitViewWidth this v console =
           Returned (console @ map (\<lambda>name. (name, ViewWidthChanged v)) vs)"
  using assms
  by (simp_all add: emitTableWrapperWidth_def emitLeftGap_def emitViewWidth_def loggers_def o_def
      forEachCallback_logTableWrapperWidth forEachCallback_logLeftGap forEachCallback_logViewWidth)

lemma calcLeftGap_loggers:
  assumes "changeEventListeners this = loggers ws gs vs"
    and "map_of (tableWrapperWidth this) tableId = Some w"
    and "viewWidth this = Some V"
    and "queryLineWidth console = Some L"
  shows "calcLeftGap queryLineWidth this tableId console =
           Returned (this\<lparr>leftGap := AList.update tableId (newLeftGap w L V) (leftGap this)\<rparr>,
             console @ map (\<lambda>name. (name, LeftGapChanged tableId (newLeftGap w L V))) gs)"
  unfolding calcLeftGap_checked [of this tableId w V queryLineWidth console L, OF assms(2-4)]
  by (simp add: emit_loggers(2) [OF assms(1)])

lemma calcLeftGap_console:
  assumes "changeEventListeners this = loggers ws gs vs"
  shows "\<exists>rest. snd (state_after (calcLeftGap queryLineWidth this tableId console)) = console @ rest \<and>
           (\<forall>name x y. (name, TableWrapperWidthChanged x y) \<notin> set rest) \<and>
           (\<forall>name y. (name, ViewWidthChanged y) \<notin> set rest)"
proof (cases "\<exists>w V L. map_of (tableWrapperWidth this) tableId = Some w \<and> viewWidth this = Some V \<and>
    queryLineWidth console = Some L")
  case True
  then obtain w V L where "map_of (tableWrapperWidth this) tableId = Some w" "viewWidth this = Some V"
    "queryLineWidth console = Some L" by blast
  from calcLeftGap_loggers [of this ws gs vs tableId w V queryLineWidth console L] assms this
  show ?thesis by auto
next
  case False
  then have "calcLeftGap queryLineWidth this tableId console =
    Threw (Error (''tableWrapperWidth not found in tableMap: '' @ tableId)) (this, console) \<or>
    calcLeftGap queryLineWidth this tableId console =
    Threw (Error ''viewWidth is not initialized'') (this, console) \<or>
    calcLeftGap queryLineWidth this tableId console =
    Threw (Error ''lineWidth is not initialized'') (this, console)"
    by (auto simp: calcLeftGap_def split: option.splits)
  then show ?thesis by auto
qed

lemma emitTableWrapperWidth_tableWrapperWidth_update:
  "emitTableWrapperWidth (this\<lparr>tableWrapperWidth := x\<rparr>) = emitTableWrapperWidth this"
  by (simp add: emitTableWrapperWidth_def fun_eq_iff)

lemma emitViewWidth_viewWidth_update:
  "emitViewWidth (this\<lparr>viewWidth := x\<rparr>) = emitViewWidth this"
  by (simp add: emitViewWidth_def fun_eq_iff)

section \<open>Change detection on the wrapper width\<close>

text \<open>
  Claim C4. \<open>setTableWrapperWidth\<close> with the width that is stored for the entity
  returns with the store and the document untouched: no write, no listener, no
  recomputation. With another width, or for a new entity, it stores the width, runs the
  \<open>tableWrapperWidth\<close> listeners once with the entity and the width, and then calls
  \<open>calcLeftGap\<close> for the entity. Calling it again with the same width, however the
  first call completed, does nothing; so two calls in a row notify at most once. With
  console listeners, the console receives the one line of each \<open>tableWrapperWidth\<close>
  listener and no other line of that kind.
\<close>

theorem setTableWrapperWidth_change_detection:
  "(map_of (tableWrapperWidth this) tableId = Some w \<longrightarrow>
      setTableWrapperWidth queryLineWidth this tableId w doc = Returned (this, doc)) \<and>
   (map_of (tableWrapperWidth this) tableId \<noteq> Some w \<longrightarrow>
      setTableWrapperWidth queryLineWidth this tableId w doc =
        (case emitTableWrapperWidth this tableId w doc of
           Threw e doc' \<Rightarrow>
             Threw e (this\<lparr>tableWrapperWidth :=
                              AList.update tableId w (tableWrapperWidth this)\<rparr>, doc')
         | Returned doc' \<Rightarrow>
             calcLeftGap queryLineWidth
               (this\<lparr>tableWrapperWidth := AList.update tableId w (tableWrapperWidth this)\<rparr>)
               tableId doc')) \<and>
   setTableWrapperWidth queryLineWidth
     (fst (state_after (setTableWrapperWidth queryLineWidth this tableId w doc))) tableId w
     (snd (state_after (setTableWrapperWidth queryLineWidth this tableId w doc))) =
     Returned (state_after (setTableWrapperWidth queryLineWidth this tableId w doc)) \<and>
   (changeEventListeners logged = loggers ws gs vs \<and>
    map_of (tableWrapperWidth logged) tableId \<noteq> Some w \<longrightarrow>
      (\<exists>rest. snd (state_after (setTableWrapperWidth lineWidthOf logged tableId w console)) =
         console @ map (\<lambda>name. (name, TableWrapperWidthChanged tableId w)) ws @ rest \<and>
         (\<forall>name x y. (name, TableWrapperWidthChanged x y) \<notin> set rest)))"
proof (intro conjI impI)
  assume "map_of (tableWrapperWidth this) tableId = Some w"
  then show "setTableWrapperWidth queryLineWidth this tableId w doc = Returned (this, doc)"
    by (simp add: setTableWrapperWidth_def)
next
  assume "map_of (tableWrapperWidth this) tableId \<noteq> Some w"
  then show "setTableWrapperWidth queryLineWidth this tableId w doc =
        (case emitTableWrapperWidth this tableId w doc of
           Threw e doc' \<Rightarrow>
             Threw e (this\<lparr>tableWrapperWidth :=
                              AList.update tableId w (tableWrapperWidth this)\<rparr>, doc')
         | Returned doc' \<Rightarrow>
             calcLeftGap queryLineWidth
               (this\<lparr>tableWrapperWidth := AList.update tableId w (tableWrapperWidth this)\<rparr>)
               tableId doc')"
    by (simp add: setTableWrapperWidth_def Let_def emitTableWrapperWidth_tableWrapperWidth_update)
next
  have "map_of (tableWrapperWidth
      (fst (state_after (setTableWrapperWidth queryLineWidth this tableId w doc)))) tableId = Some w"
    using setTableWrapperWidth_store [OF refl, of queryLineWidth this tableId w doc] by simp
  then show "setTableWrapperWidth queryLineWidth
     (fst (state_after (setTableWrapperWidth queryLineWidth this tableId w doc))) tableId w
     (snd (state_after (setTableWrapperWidth queryLineWidth this tableId w doc))) =
     Returned (state_after (setTableWrapperWidth queryLineWidth this tableId w doc))"
    by (simp add: setTableWrapperWidth_def)
next
  let ?logged' = "logged\<lparr>tableWrapperWidth := AList.update tableId w (tableWrapperWidth logged)\<rparr>"
  let ?console' = "console @ map (\<lambda>name. (name, TableWrapperWidthChanged tableId w)) ws"
  assume a: "changeEventListeners logged = loggers ws gs vs \<and>
    map_of (tableWrapperWidth logged) tableId \<noteq> Some w"
  then have l: "changeEventListeners ?logged' = loggers ws gs vs" by simp
  have "setTableWrapperWidth lineWidthOf logged tableId w console =
          calcLeftGap lineWidthOf ?logged' tableId ?console'"
    using a by (simp add: setTableWrapperWidth_def Let_def emit_loggers(1) [OF l])
  with calcLeftGap_console [OF l, of lineWidthOf tableId ?console']
  show "\<exists>rest. snd (state_after (setTableWrapperWidth lineWidthOf logged tableId w console)) =
         console @ map (\<lambda>name. (name, TableWrapperWidthChanged tableId w)) ws @ rest \<and>
         (\<forall>name x y. (name, TableWrapperWidthChanged x y) \<notin> set rest)"
    by auto
qed

text \<open>
  With the view at 1000 and a line of 400, the first measurement of \<open>t1\<close> at 700 writes
  one line for the width and one for the left gap; the same measurement again writes
  nothing.
\<close>

theorem setTableWrapperWidth_change_detection_witness:
  "setTableWrapperWidth (lineWidthIs 400) (loggedStore\<lparr>viewWidth := Some 1000\<rparr>) ''t1'' 700 [] =
     Returned (loggedStore\<lparr>viewWidth := Some 1000, tableWrapperWidth := [(''t1'', 700)],
                 leftGap := [(''t1'', 150)]\<rparr>,
               [(''w'', TableWrapperWidthChanged ''t1'' 700), (''g'', LeftGapChanged ''t1'' 150)]) \<and>
   setTableWrapperWidth (lineWidthIs 400)
     (loggedStore\<lparr>viewWidth := Some 1000, tableWrapperWidth := [(''t1'', 700)],
        leftGap := [(''t1'', 150)]\<rparr>) ''t1'' 700
     [(''w'', TableWrapperWidthChanged ''t1'' 700), (''g'', LeftGapChanged ''t1'' 150)] =
     Returned (loggedStore\<lparr>viewWidth := Some 1000, tableWrapperWidth := [(''t1'', 700)],
                 leftGap := [(''t1'', 150)]\<rparr>,
               [(''w'', TableWrapperWidthChanged ''t1'' 700), (''g'', LeftGapChanged ''t1'' 150)])"
  using
    setTableWrapperWidth_change_detection [where this = "loggedStore\<lparr>viewWidth := Some 1000\<rparr>"
      and tableId = "''t1''" and w = 700 and queryLineWidth = "lineWidthIs 400" and doc = "[]"
      and logged = "loggedStore\<lparr>viewWidth := Some 1000\<rparr>" and ws = "[''w'']" and gs = "[''g'']"
      and vs = "[''v'']" and lineWidthOf = "lineWidthIs 400" and console = "[]"]
    setTableWrapperWidth_change_detection [where this = "loggedStore\<lparr>viewWidth := Some 1000,
        tableWrapperWidth := [(''t1'', 700)], leftGap := [(''t1'', 150)]\<rparr>"
      and tableId = "''t1''" and w = 700 and queryLineWidth = "lineWidthIs 400"
      and doc = "[(''w'', TableWrapperWidthChanged ''t1'' 700), (''g'', LeftGapChanged ''t1'' 150)]"
      and logged = "loggedStore\<lparr>viewWidth := Some 1000\<rparr>" and ws = "[''w'']" and gs = "[''g'']"
      and vs = "[''v'']" and lineWidthOf = "lineWidthIs 400" and console = "[]"]
  by (simp add: loggedStore_def new_TableMap_def loggers_def emitTableWrapperWidth_def
      logTableWrapperWidth_def calcLeftGap_def lineWidthIs_def newLeftGap_def emitLeftGap_def
      logLeftGap_def setTableWrapperWidth_def)

section \<open>Registration and fan-out\<close>

lemma addChangeEventListener_listeners:
  "tableWrapperWidth_listeners (changeEventListeners (addChangeEventListener this l)) =
     tableWrapperWidth_listeners (changeEventListeners this) @
       (case l of OnTableWrapperWidth callback \<Rightarrow> [callback] | _ \<Rightarrow> []) \<and>
   leftGap_listeners (changeEventListeners (addChangeEventListener this l)) =
     leftGap_listeners (changeEventListeners this) @
       (case l of OnLeftGap callback \<Rightarrow> [callback] | _ \<Rightarrow> []) \<and>
   viewWidth_listeners (changeEventListeners (addChangeEventListener this l)) =
     viewWidth_listeners (changeEventListeners this) @
       (case l of OnViewWidth callback \<Rightarrow> [callback] | _ \<Rightarrow> [])"
  by (cases l) simp_all

lemma foldl_addChangeEventListener_listeners:
  "tableWrapperWidth_listeners (changeEventListeners (foldl addChangeEventListener this ls)) =
     tableWrapperWidth_listeners (changeEventListeners this) @
       [callback. OnTableWrapperWidth callback \<leftarrow> ls] \<and>
   leftGap_listeners (changeEventListeners (foldl addChangeEventListener this ls)) =
     leftGap_listeners (changeEventListeners this) @ [callback. OnLeftGap callback \<leftarrow> ls] \<and>
   viewWidth_listeners (changeEventListeners (foldl addChangeEventListener this ls)) =
     viewWidth_listeners (changeEventListeners this) @ [callback. OnViewWidth callback \<leftarrow> ls]"
proof (induction ls rule: rev_induct)
  case Nil
  show ?case by simp
next
  case (snoc l ls)
  then show ?case
    using addChangeEventListener_listeners [of "foldl addChangeEventListener this ls" l]
    by (cases l) simp_all
qed

lemma forEachCallback_Threw:
  "forEachCallback calls doc = Threw e doc' \<Longrightarrow>
     \<exists>before call after. calls = before @ call # after \<and>
       forEachCallback before doc =
         Returned (foldl (\<lambda>d call. state_after (call d)) doc before) \<and>
       call (foldl (\<lambda>d call. state_after (call d)) doc before) = Threw e doc'"
proof (induction calls arbitrary: doc)
  case Nil
  then show ?case by simp
next
  case (Cons c calls)
  show ?case
  proof (cases "c doc")
    case (Returned d)
    with Cons.prems have "forEachCallback calls d = Threw e doc'" by simp
    from Cons.IH [OF this] obtain before call after where
      "calls = before @ call # after"
      "forEachCallback before d = Returned (foldl (\<lambda>d call. state_after (call d)) d before)"
      "call (foldl (\<lambda>d call. state_after (call d)) d before) = Threw e doc'"
      by blast
    with Returned show ?thesis
      by (intro exI [of _ "c # before"] exI [of _ call] exI [of _ after]) simp
  next
    case (Threw e' d)
    with Cons.prems show ?thesis
      by (intro exI [of _ "[]"] exI [of _ c] exI [of _ calls]) simp
  qed
qed

text \<open>
  Claim C8. Any number of listeners can be registered for each of the three events:
  \<open>addChangeEventListener\<close> appends to the array of the event, so after any sequence
  of registrations each array holds its listeners in registration order. An event runs the
  loop over the array of its kind. When the loop returns, the document is what results
  from calling every listener of the array, in that order, with the same arguments; with
  console listeners the console receives one line from each listener, in registration
  order, each with the arguments of the event, also when the event comes from
  \<open>calcLeftGap\<close>. A loop that throws has called the listeners before the throwing
  one, in order, and then the throwing one.
\<close>

theorem listeners_fan_out:
  "tableWrapperWidth_listeners (changeEventListeners (foldl addChangeEventListener this ls)) =
     tableWrapperWidth_listeners (changeEventListeners this) @
       [callback. OnTableWrapperWidth callback \<leftarrow> ls] \<and>
   leftGap_listeners (changeEventListeners (foldl addChangeEventListener this ls)) =
     leftGap_listeners (changeEventListeners this) @ [callback. OnLeftGap callback \<leftarrow> ls] \<and>
   viewWidth_listeners (changeEventListeners (foldl addChangeEventListener this ls)) =
     viewWidth_listeners (changeEventListeners this) @ [callback. OnViewWidth callback \<leftarrow> ls] \<and>
   (emitTableWrapperWidth this tableId w doc = Returned doc' \<longrightarrow>
      doc' = foldl (\<lambda>d callback. state_after (callback tableId w d)) doc
               (tableWrapperWidth_listeners (changeEventListeners this))) \<and>
   (emitLeftGap this tableId w doc = Returned doc' \<longrightarrow>
      doc' = foldl (\<lambda>d callback. state_after (callback tableId w d)) doc
               (leftGap_listeners (changeEventListeners this))) \<and>
   (emitViewWidth this w doc = Returned doc' \<longrightarrow>
      doc' = foldl (\<lambda>d callback. state_after (callback w d)) doc
               (viewWidth_listeners (changeEventListeners this))) \<and>
   (forEachCallback calls doc = Threw e doc' \<longrightarrow>
      (\<exists>before call after. calls = before @ call # after \<and>
         forEachCallback before doc =
           Returned (foldl (\<lambda>d call. state_after (call d)) doc before) \<and>
         call (foldl (\<lambda>d call. state_after (call d)) doc before) = Threw e doc')) \<and>
   (changeEventListeners logged = loggers ws gs vs \<longrightarrow>
      emitTableWrapperWidth logged tableId w console =
        Returned (console @ map (\<lambda>name. (name, TableWrapperWidthChanged tableId w)) ws) \<and>
      emitLeftGap logged tableId w console =
        Returned (console @ map (\<lambda>name. (name, LeftGapChanged tableId w)) gs) \<and>
      emitViewWidth logged w console =
        Returned (console @ map (\<lambda>name. (name, ViewWidthChanged w)) vs) \<and>
      (map_of (tableWrapperWidth logged) tableId = Some w \<and> viewWidth logged = Some V \<and>
       lineWidthOf console = Some L \<longrightarrow>
         calcLeftGap lineWidthOf logged tableId console =
           Returned (logged\<lparr>leftGap := AList.update tableId (newLeftGap w L V) (leftGap logged)\<rparr>,
             console @ map (\<lambda>name. (name, LeftGapChanged tableId (newLeftGap w L V))) gs)))"
proof -
  have fold: "forEachCallback (map f cbs) doc = Returned doc' \<Longrightarrow>
      doc' = foldl (\<lambda>d callback. state_after (f callback d)) doc cbs"
    for f :: "'c \<Rightarrow> 'a \<Rightarrow> 'a completion" and cbs
    using forEachCallback_Returned [of "map f cbs" doc doc'] by (simp add: foldl_map)
  have thrown: "forEachCallback calls doc = Threw e doc' \<longrightarrow>
      (\<exists>before call after. calls = before @ call # after \<and>
         forEachCallback before doc =
           Returned (foldl (\<lambda>d call. state_after (call d)) doc before) \<and>
         call (foldl (\<lambda>d call. state_after (call d)) doc before) = Threw e doc')"
    using forEachCallback_Threw [of calls doc e doc'] by blast
  have rest: "tableWrapperWidth_listeners (changeEventListeners (foldl addChangeEventListener this ls)) =
     tableWrapperWidth_listeners (changeEventListeners this) @
       [callback. OnTableWrapperWidth callback \<leftarrow> ls] \<and>
   leftGap_listeners (changeEventListeners (foldl addChangeEventListener this ls)) =
     leftGap_listeners (changeEventListeners this) @ [callback. OnLeftGap callback \<leftarrow> ls] \<and>
   viewWidth_listeners (changeEventListeners (foldl addChangeEventListener this ls)) =
     viewWidth_listeners (changeEventListeners this) @ [callback. OnViewWidth callback \<leftarrow> ls] \<and>
   (emitTableWrapperWidth this tableId w doc = Returned doc' \<longrightarrow>
      doc' = foldl (\<lambda>d callback. state_after (callback tableId w d)) doc
               (tableWrapperWidth_listeners (changeEventListeners this))) \<and>
   (emitLeftGap this tableId w doc = Returned doc' \<longrightarrow>
      doc' = foldl (\<lambda>d callback. state_after (callback tableId w d)) doc
               (leftGap_listeners (changeEventListeners this))) \<and>
   (emitViewWidth this w doc = Returned doc' \<longrightarrow>
      doc' = foldl (\<lambda>d callback. state_after (callback w d)) doc
               (viewWidth_listeners (changeEventListeners this))) \<and>
   (changeEventListeners logged = loggers ws gs vs \<longrightarrow>
      emitTableWrapperWidth logged tableId w console =
        Returned (console @ map (\<lambda>name. (name, TableWrapperWidthChanged tableId w)) ws) \<and>
      emitLeftGap logged tableId w console =
        Returned (console @ map (\<lambda>name. (name, LeftGapChanged tableId w)) gs) \<and>
      emitViewWidth logged w console =
        Returned (console @ map (\<lambda>name. (name, ViewWidthChanged w)) vs) \<and>
      (map_of (tableWrapperWidth logged) tableId = Some w \<and> viewWidth logged = Some V \<and>
       lineWidthOf console = Some L \<longrightarrow>
         calcLeftGap lineWidthOf logged tableId console =
           Returned (logged\<lparr>leftGap := AList.update tableId (newLeftGap w L V) (leftGap logged)\<rparr>,
             console @ map (\<lambda>name. (name, LeftGapChanged tableId (newLeftGap w L V))) gs)))"
    using foldl_addChangeEventListener_listeners [of this ls]
      emit_loggers [of logged ws gs vs]
      calcLeftGap_loggers [of logged ws gs vs tableId w V lineWidthOf console L]
    by (auto simp: emitTableWrapperWidth_def emitLeftGap_def emitViewWidth_def dest!: fold)
  from rest thrown show ?thesis by blast
qed

text \<open>
  Two listeners \<open>a\<close> and \<open>b\<close> registered on \<open>leftGap\<close>, with a \<open>viewWidth\<close>
  listener registered between them: one recomputation calls \<open>a\<close>, then \<open>b\<close>, both
  with the entity and 150.
\<close>

theorem listeners_fan_out_witness:
  "changeEventListeners
     (foldl addChangeEventListener
        (new_TableMap\<lparr>viewWidth := Some 1000, tableWrapperWidth := [(''t1'', 700)]\<rparr>)
        [OnLeftGap (logLeftGap ''a''), OnViewWidth (logViewWidth ''v''),
         OnLeftGap (logLeftGap ''b'')]) = loggers [] [''a'', ''b''] [''v''] \<and>
   calcLeftGap (lineWidthIs 400)
     (foldl addChangeEventListener
        (new_TableMap\<lparr>viewWidth := Some 1000, tableWrapperWidth := [(''t1'', 700)]\<rparr>)
        [OnLeftGap (logLeftGap ''a''), OnViewWidth (logViewWidth ''v''),
         OnLeftGap (logLeftGap ''b'')]) ''t1'' [] =
     Returned (new_TableMap\<lparr>viewWidth := Some 1000, tableWrapperWidth := [(''t1'', 700)],
                 leftGap := [(''t1'', 150)],
                 changeEventListeners := loggers [] [''a'', ''b''] [''v'']\<rparr>,
               [(''a'', LeftGapChanged ''t1'' 150), (''b'', LeftGapChanged ''t1'' 150)])"
proof -
  let ?S = "new_TableMap\<lparr>viewWidth := Some 1000, tableWrapperWidth := [(''t1'', 700)]\<rparr>
              :: console TableMap"
  let ?ls = "[OnLeftGap (logLeftGap ''a''), OnViewWidth (logViewWidth ''v''),
         OnLeftGap (logLeftGap ''b'')]"
  have l: "changeEventListeners (foldl addChangeEventListener ?S ?ls) =
             loggers [] [''a'', ''b''] [''v'']"
    using listeners_fan_out [where this = ?S and ls = ?ls and logged = ?S and ws = "[]"
        and gs = "[]" and vs = "[]" and tableId = "''t1''" and w = 700 and doc = "[]"
        and doc' = "[]" and console = "[]" and lineWidthOf = "lineWidthIs 400" and V = 1000
        and L = 400 and calls = "[]" and e = "Error []"]
    by (simp add: new_TableMap_def loggers_def)
  from l listeners_fan_out [where this = ?S and ls = ?ls
        and logged = "foldl addChangeEventListener ?S ?ls" and ws = "[]"
        and gs = "[''a'', ''b'']" and vs = "[''v'']" and tableId = "''t1''" and w = 700
        and doc = "[]" and doc' = "[]" and console = "[]" and lineWidthOf = "lineWidthIs 400"
        and V = 1000 and L = 400 and calls = "[]" and e = "Error []"]
  show ?thesis
    by (simp add: new_TableMap_def lineWidthIs_def newLeftGap_def loggers_def)
qed

section \<open>A new view width\<close>

lemma emitLeftGap_cong:
  "changeEventListeners a = changeEventListeners b \<Longrightarrow> emitLeftGap a = emitLeftGap b"
  by (simp add: emitLeftGap_def fun_eq_iff)

lemma calcLeftGaps_Returned_each:
  assumes "calcLeftGaps queryLineWidth this tableIds doc = Returned (this', doc')"
  shows "(\<forall>tableId \<in> set tableIds. \<exists>wr V L d d'.
            map_of (tableWrapperWidth this) tableId = Some wr \<and> viewWidth this = Some V \<and>
            queryLineWidth d = Some L \<and>
            map_of (leftGap this') tableId = Some (newLeftGap wr L V) \<and>
            emitLeftGap this tableId (newLeftGap wr L V) d = Returned d') \<and>
         (\<forall>tableId. tableId \<notin> set tableIds \<longrightarrow>
            map_of (leftGap this') tableId = map_of (leftGap this) tableId)"
  using assms
proof (induction tableIds arbitrary: this doc)
  case Nil
  then show ?case by simp
next
  case (Cons tableId tableIds)
  from Cons.prems obtain this1 doc1 where
    1: "calcLeftGap queryLineWidth this tableId doc = Returned (this1, doc1)"
    and 2: "calcLeftGaps queryLineWidth this1 tableIds doc1 = Returned (this', doc')"
    by (auto split: completion.splits)
  from 1 obtain wr V L where
    head: "map_of (tableWrapperWidth this) tableId = Some wr" "viewWidth this = Some V"
      "queryLineWidth doc = Some L"
      "this1 = this\<lparr>leftGap := AList.update tableId (newLeftGap wr L V) (leftGap this)\<rparr>"
      "emitLeftGap this tableId (newLeftGap wr L V) doc = Returned doc1"
    by (auto simp: calcLeftGap_def emitLeftGap_leftGap_update Let_def
        split: option.splits completion.splits)
  have same: "tableWrapperWidth this1 = tableWrapperWidth this" "viewWidth this1 = viewWidth this"
    "emitLeftGap this1 = emitLeftGap this"
    using head(4) by (simp_all add: emitLeftGap_leftGap_update)
  from Cons.IH [OF 2] have
    each: "\<forall>t \<in> set tableIds. \<exists>wr V L d d'.
            map_of (tableWrapperWidth this) t = Some wr \<and> viewWidth this = Some V \<and>
            queryLineWidth d = Some L \<and>
            map_of (leftGap this') t = Some (newLeftGap wr L V) \<and>
            emitLeftGap this t (newLeftGap wr L V) d = Returned d'"
    and others: "\<forall>t. t \<notin> set tableIds \<longrightarrow> map_of (leftGap this') t = map_of (leftGap this1) t"
    unfolding same by simp_all
  have "\<exists>wr V L d d'.
            map_of (tableWrapperWidth this) tableId = Some wr \<and> viewWidth this = Some V \<and>
            queryLineWidth d = Some L \<and>
            map_of (leftGap this') tableId = Some (newLeftGap wr L V) \<and>
            emitLeftGap this tableId (newLeftGap wr L V) d = Returned d'"
  proof (cases "tableId \<in> set tableIds")
    case True
    with each show ?thesis by blast
  next
    case False
    with others head(4) have "map_of (leftGap this') tableId = Some (newLeftGap wr L V)"
      by (simp add: update_conv')
    with head show ?thesis by blast
  qed
  moreover have "\<forall>t. t \<notin> set (tableId # tableIds) \<longrightarrow>
                   map_of (leftGap this') t = map_of (leftGap this) t"
    using others head(4) by (simp add: update_conv')
  ultimately show ?case using each by simp
qed

lemma setViewWidth_Returned:
  assumes "setViewWidth queryLineWidth this v doc = Returned (this', doc')"
  shows "viewWidth this' = Some v \<and>
         (\<exists>doc1. emitViewWidth this v doc = Returned doc1) \<and>
         (\<forall>tableId \<in> fst ` set (leftGap this). \<exists>wr L d d'.
            map_of (tableWrapperWidth this) tableId = Some wr \<and> queryLineWidth d = Some L \<and>
            map_of (leftGap this') tableId = Some (newLeftGap wr L v) \<and>
            emitLeftGap this tableId (newLeftGap wr L v) d = Returned d')"
proof -
  let ?this1 = "this\<lparr>viewWidth := Some v\<rparr>"
  from assms(1) obtain doc1 where
    1: "emitViewWidth this v doc = Returned doc1"
    and 2: "calcLeftGaps queryLineWidth ?this1 (map fst (leftGap this)) doc1 = Returned (this', doc')"
    by (auto simp: setViewWidth_def Let_def emitViewWidth_viewWidth_update split: completion.splits)
  have e: "emitLeftGap ?this1 = emitLeftGap this"
    by (rule emitLeftGap_cong) simp
  have "viewWidth this' = Some v"
    using setViewWidth_store [OF refl, of queryLineWidth this v doc] assms(1) by simp
  moreover have "\<forall>tableId \<in> fst ` set (leftGap this). \<exists>wr L d d'.
            map_of (tableWrapperWidth this) tableId = Some wr \<and> queryLineWidth d = Some L \<and>
            map_of (leftGap this') tableId = Some (newLeftGap wr L v) \<and>
            emitLeftGap this tableId (newLeftGap wr L v) d = Returned d'"
    using calcLeftGaps_Returned_each [OF 2] unfolding e by fastforce
  ultimately show ?thesis using 1 by blast
qed

lemma calcLeftGaps_loggers:
  assumes "changeEventListeners this = loggers ws gs vs"
    and "\<forall>console. queryLineWidth console \<noteq> None"
    and "viewWidth this = Some V"
    and "\<forall>tableId \<in> set tableIds. map_of (tableWrapperWidth this) tableId \<noteq> None"
  shows "\<exists>this' rest.
           calcLeftGaps queryLineWidth this tableIds console = Returned (this', console @ rest) \<and>
           (\<forall>tableId \<in> set tableIds. \<exists>g.
              map_of (leftGap this') tableId = Some g \<and>
              (\<forall>name \<in> set gs. (name, LeftGapChanged tableId g) \<in> set rest))"
  using assms
proof (induction tableIds arbitrary: this console)
  case Nil
  then show ?case by simp
next
  case (Cons tableId tableIds)
  from Cons.prems obtain wr where wr: "map_of (tableWrapperWidth this) tableId = Some wr"
    by auto
  from Cons.prems obtain L where L: "queryLineWidth console = Some L"
    by (meson option.exhaust)
  let ?g = "newLeftGap wr L V"
  let ?this1 = "this\<lparr>leftGap := AList.update tableId ?g (leftGap this)\<rparr>"
  let ?r1 = "map (\<lambda>name. (name, LeftGapChanged tableId ?g)) gs"
  have step: "calcLeftGap queryLineWidth this tableId console = Returned (?this1, console @ ?r1)"
    using calcLeftGap_loggers [of this ws gs vs tableId wr V queryLineWidth console L]
      Cons.prems wr L by simp
  have "\<exists>this' rest.
           calcLeftGaps queryLineWidth ?this1 tableIds (console @ ?r1) =
             Returned (this', (console @ ?r1) @ rest) \<and>
           (\<forall>tableId \<in> set tableIds. \<exists>g.
              map_of (leftGap this') tableId = Some g \<and>
              (\<forall>name \<in> set gs. (name, LeftGapChanged tableId g) \<in> set rest))"
    using Cons.prems by (intro Cons.IH) simp_all
  then obtain this' rest where
    run: "calcLeftGaps queryLineWidth ?this1 tableIds (console @ ?r1) =
             Returned (this', (console @ ?r1) @ rest)"
    and each: "\<forall>tableId \<in> set tableIds. \<exists>g.
              map_of (leftGap this') tableId = Some g \<and>
              (\<forall>name \<in> set gs. (name, LeftGapChanged tableId g) \<in> set rest)"
    by auto
  have whole: "calcLeftGaps queryLineWidth this (tableId # tableIds) console =
                 Returned (this', console @ (?r1 @ rest))"
    using step run by simp
  have "\<exists>g. map_of (leftGap this') tableId = Some g \<and>
              (\<forall>name \<in> set gs. (name, LeftGapChanged tableId g) \<in> set (?r1 @ rest))"
  proof (cases "tableId \<in> set tableIds")
    case True
    with each show ?thesis by fastforce
  next
    case False
    from calcLeftGaps_Returned_each [OF run] False
    have "map_of (leftGap this') tableId = Some ?g"
      by (simp add: update_conv')
    then show ?thesis by auto
  qed
  moreover have "\<forall>t \<in> set tableIds. \<exists>g. map_of (leftGap this') t = Some g \<and>
              (\<forall>name \<in> set gs. (name, LeftGapChanged t g) \<in> set (?r1 @ rest))"
    using each by fastforce
  ultimately show ?case using whole by (intro exI [of _ this'] exI [of _ "?r1 @ rest"]) simp
qed

text \<open>
  Claim C2 says that \<open>setViewWidth\<close> recomputes the left gap of every tracked entity,
  that is of every entity whose wrapper width has been recorded. The loop of
  \<open>setViewWidth\<close> runs over the keys of \<open>leftGap\<close>, not over those of
  \<open>tableWrapperWidth\<close>. An entity measured before the view width was known has a
  wrapper width and no left gap (its first \<open>calcLeftGap\<close> threw), and the next
  \<open>setViewWidth\<close> returns without a recomputation and without a \<open>leftGap\<close> event
  for it.
\<close>

theorem setViewWidth_not_for_every_tracked:
  "map_of (tableWrapperWidth (fst (state_after
     (setTableWrapperWidth (lineWidthIs 400) loggedStore ''t1'' 300 [])))) ''t1'' = Some 300 \<and>
   setViewWidth (lineWidthIs 400)
     (fst (state_after (setTableWrapperWidth (lineWidthIs 400) loggedStore ''t1'' 300 []))) 1000 [] =
     Returned (loggedStore\<lparr>viewWidth := Some 1000, tableWrapperWidth := [(''t1'', 300)]\<rparr>,
               [(''v'', ViewWidthChanged 1000)])"
  by (simp add: setTableWrapperWidth_def calcLeftGap_def emitTableWrapperWidth_def
      loggedStore_def new_TableMap_def loggers_def logTableWrapperWidth_def setViewWidth_def
      emitViewWidth_def logViewWidth_def)

text \<open>
  Claim C2, amended. \<open>setViewWidth\<close> for any width \<open>v\<close>, equal to the stored view
  width or not, stores \<open>v\<close>, runs the \<open>viewWidth\<close> listeners with \<open>v\<close>, and then
  recomputes the left gap of every entity that has a stored left gap. A call that returns
  has done all of it: for each such entity the left gap computed from its wrapper width,
  a line width read during the call and \<open>v\<close> is stored, and the \<open>leftGap\<close> listeners
  have run with it. With the line width readable, listeners that write to the console (so
  that none throws) and a wrapper width stored for every entity with a left gap, the call
  returns, and the console receives a line from each \<open>viewWidth\<close> listener and then,
  for every entity with a stored left gap, a line from each \<open>leftGap\<close> listener with
  the value stored.
\<close>

theorem setViewWidth_recomputes_stored_gaps:
  "(setViewWidth queryLineWidth this v doc = Returned (this', doc') \<longrightarrow>
      viewWidth this' = Some v \<and>
      (\<exists>doc1. emitViewWidth this v doc = Returned doc1) \<and>
      (\<forall>tableId \<in> fst ` set (leftGap this). \<exists>wr L d d'.
         map_of (tableWrapperWidth this) tableId = Some wr \<and> queryLineWidth d = Some L \<and>
         map_of (leftGap this') tableId = Some (newLeftGap wr L v) \<and>
         emitLeftGap this tableId (newLeftGap wr L v) d = Returned d')) \<and>
   (changeEventListeners logged = loggers ws gs vs \<and>
    (\<forall>console. lineWidthOf console \<noteq> None) \<and>
    fst ` set (leftGap logged) \<subseteq> fst ` set (tableWrapperWidth logged) \<longrightarrow>
      (\<exists>logged' rest.
         setViewWidth lineWidthOf logged v console =
           Returned (logged', console @ map (\<lambda>name. (name, ViewWidthChanged v)) vs @ rest) \<and>
         (\<forall>tableId \<in> fst ` set (leftGap logged). \<exists>g.
            map_of (leftGap logged') tableId = Some g \<and>
            (\<forall>name \<in> set gs. (name, LeftGapChanged tableId g) \<in> set rest))))"
proof (rule conjI)
  show "setViewWidth queryLineWidth this v doc = Returned (this', doc') \<longrightarrow>
      viewWidth this' = Some v \<and>
      (\<exists>doc1. emitViewWidth this v doc = Returned doc1) \<and>
      (\<forall>tableId \<in> fst ` set (leftGap this). \<exists>wr L d d'.
         map_of (tableWrapperWidth this) tableId = Some wr \<and> queryLineWidth d = Some L \<and>
         map_of (leftGap this') tableId = Some (newLeftGap wr L v) \<and>
         emitLeftGap this tableId (newLeftGap wr L v) d = Returned d')"
    using setViewWidth_Returned [of queryLineWidth this v doc this' doc'] by (rule impI)
next
  show "changeEventListeners logged = loggers ws gs vs \<and>
    (\<forall>console. lineWidthOf console \<noteq> None) \<and>
    fst ` set (leftGap logged) \<subseteq> fst ` set (tableWrapperWidth logged) \<longrightarrow>
      (\<exists>logged' rest.
         setViewWidth lineWidthOf logged v console =
           Returned (logged', console @ map (\<lambda>name. (name, ViewWidthChanged v)) vs @ rest) \<and>
         (\<forall>tableId \<in> fst ` set (leftGap logged). \<exists>g.
            map_of (leftGap logged') tableId = Some g \<and>
            (\<forall>name \<in> set gs. (name, LeftGapChanged tableId g) \<in> set rest)))"
  proof (rule impI)
    assume a: "changeEventListeners logged = loggers ws gs vs \<and>
      (\<forall>console. lineWidthOf console \<noteq> None) \<and>
      fst ` set (leftGap logged) \<subseteq> fst ` set (tableWrapperWidth logged)"
    let ?logged1 = "logged\<lparr>viewWidth := Some v\<rparr>"
    let ?c1 = "console @ map (\<lambda>name. (name, ViewWidthChanged v)) vs"
    have l: "changeEventListeners ?logged1 = loggers ws gs vs"
      using a by simp
    have tracked: "\<forall>tableId \<in> set (map fst (leftGap logged)).
                     map_of (tableWrapperWidth ?logged1) tableId \<noteq> None"
      using a by (auto simp: map_of_eq_None_iff)
    have unfold: "setViewWidth lineWidthOf logged v console =
                    calcLeftGaps lineWidthOf ?logged1 (map fst (leftGap logged)) ?c1"
      by (simp add: setViewWidth_def Let_def emit_loggers(3) [OF l])
    from calcLeftGaps_loggers [of ?logged1 ws gs vs lineWidthOf v "map fst (leftGap logged)" ?c1,
        OF l _ _ tracked] a
    show "\<exists>logged' rest.
           setViewWidth lineWidthOf logged v console =
             Returned (logged', console @ map (\<lambda>name. (name, ViewWidthChanged v)) vs @ rest) \<and>
           (\<forall>tableId \<in> fst ` set (leftGap logged). \<exists>g.
              map_of (leftGap logged') tableId = Some g \<and>
              (\<forall>name \<in> set gs. (name, LeftGapChanged tableId g) \<in> set rest))"
      unfolding unfold by auto
  qed
qed

text \<open>
  Two tables with stored left gaps: a view of 1200 recomputes both, and so does a view of
  1000, the width already stored.
\<close>

theorem setViewWidth_recomputes_stored_gaps_witness:
  "setViewWidth (lineWidthIs 400)
     (loggedStore\<lparr>viewWidth := Some 1000, tableWrapperWidth := [(''t1'', 700), (''t2'', 1400)],
        leftGap := [(''t1'', 150), (''t2'', 300)]\<rparr>) 1200 [] =
     Returned (loggedStore\<lparr>viewWidth := Some 1200,
                 tableWrapperWidth := [(''t1'', 700), (''t2'', 1400)],
                 leftGap := [(''t1'', 150), (''t2'', 400)]\<rparr>,
               [(''v'', ViewWidthChanged 1200), (''g'', LeftGapChanged ''t1'' 150),
                (''g'', LeftGapChanged ''t2'' 400)]) \<and>
   setViewWidth (lineWidthIs 400)
     (loggedStore\<lparr>viewWidth := Some 1000, tableWrapperWidth := [(''t1'', 700), (''t2'', 1400)],
        leftGap := [(''t1'', 150), (''t2'', 300)]\<rparr>) 1000 [] =
     Returned (loggedStore\<lparr>viewWidth := Some 1000,
                 tableWrapperWidth := [(''t1'', 700), (''t2'', 1400)],
                 leftGap := [(''t1'', 150), (''t2'', 300)]\<rparr>,
               [(''v'', ViewWidthChanged 1000), (''g'', LeftGapChanged ''t1'' 150),
                (''g'', LeftGapChanged ''t2'' 300)])"
proof -
  let ?S = "loggedStore\<lparr>viewWidth := Some 1000, tableWrapperWidth := [(''t1'', 700), (''t2'', 1400)],
        leftGap := [(''t1'', 150), (''t2'', 300)]\<rparr>"
  have h: "changeEventListeners ?S = loggers [''w''] [''g''] [''v''] \<and>
    (\<forall>console :: console. lineWidthIs 400 console \<noteq> None) \<and>
    fst ` set (leftGap ?S) \<subseteq> fst ` set (tableWrapperWidth ?S)"
    by (simp add: loggedStore_def new_TableMap_def lineWidthIs_def)
  have r: "setViewWidth (lineWidthIs 400) ?S 1200 [] =
     Returned (loggedStore\<lparr>viewWidth := Some 1200,
                 tableWrapperWidth := [(''t1'', 700), (''t2'', 1400)],
                 leftGap := [(''t1'', 150), (''t2'', 400)]\<rparr>,
               [(''v'', ViewWidthChanged 1200), (''g'', LeftGapChanged ''t1'' 150),
                (''g'', LeftGapChanged ''t2'' 400)])"
    by (simp add: loggedStore_def new_TableMap_def loggers_def setViewWidth_def emitViewWidth_def
        logViewWidth_def calcLeftGap_def lineWidthIs_def newLeftGap_def emitLeftGap_def
        logLeftGap_def)
  from h r
    setViewWidth_recomputes_stored_gaps [where logged = ?S and ws = "[''w'']" and gs = "[''g'']"
      and vs = "[''v'']" and lineWidthOf = "lineWidthIs 400" and v = 1200 and console = "[]"
      and this = ?S and queryLineWidth = "lineWidthIs 400" and doc = "[]"
      and this' = "loggedStore\<lparr>viewWidth := Some 1200,
                 tableWrapperWidth := [(''t1'', 700), (''t2'', 1400)],
                 leftGap := [(''t1'', 150), (''t2'', 400)]\<rparr>"
      and doc' = "[(''v'', ViewWidthChanged 1200), (''g'', LeftGapChanged ''t1'' 150),
                (''g'', LeftGapChanged ''t2'' 400)]"]
    setViewWidth_recomputes_stored_gaps [where logged = ?S and ws = "[''w'']" and gs = "[''g'']"
      and vs = "[''v'']" and lineWidthOf = "lineWidthIs 400" and v = 1000 and console = "[]"
      and this = ?S and queryLineWidth = "lineWidthIs 400" and doc = "[]"
      and this' = "loggedStore\<lparr>viewWidth := Some 1000,
                 tableWrapperWidth := [(''t1'', 700), (''t2'', 1400)],
                 leftGap := [(''t1'', 150), (''t2'', 300)]\<rparr>"
      and doc' = "[(''v'', ViewWidthChanged 1000), (''g'', LeftGapChanged ''t1'' 150),
                (''g'', LeftGapChanged ''t2'' 300)]"]
  show ?thesis
    by (simp add: loggedStore_def new_TableMap_def loggers_def setViewWidth_def emitViewWidth_def
        logViewWidth_def calcLeftGap_def lineWidthIs_def newLeftGap_def emitLeftGap_def
        logLeftGap_def)
qed


text \<open>
  The entities with a stored left gap are all the tracked entities as long as every call
  so far has returned.
\<close>

lemma calcLeftGap_Returned_keys:
  assumes "calcLeftGap queryLineWidth this tableId doc = Returned (this', doc')"
  shows "fst ` set (leftGap this') = insert tableId (fst ` set (leftGap this)) \<and>
         tableId \<in> fst ` set (tableWrapperWidth this) \<and>
         tableWrapperWidth this' = tableWrapperWidth this"
proof -
  from assms obtain w V L where
    "map_of (tableWrapperWidth this) tableId = Some w"
    "this' = this\<lparr>leftGap := AList.update tableId (newLeftGap w L V) (leftGap this)\<rparr>"
    by (auto simp: calcLeftGap_def Let_def split: option.splits completion.splits)
  then show ?thesis
    by (auto simp: dom_update dest: map_of_SomeD intro: rev_image_eqI)
qed

lemma calcLeftGaps_Returned_keys:
  assumes "calcLeftGaps queryLineWidth this tableIds doc = Returned (this', doc')"
  shows "fst ` set (leftGap this') = set tableIds \<union> fst ` set (leftGap this) \<and>
         tableWrapperWidth this' = tableWrapperWidth this"
  using assms
proof (induction tableIds arbitrary: this doc)
  case Nil
  then show ?case by simp
next
  case (Cons tableId tableIds)
  from Cons.prems obtain this1 doc1 where
    1: "calcLeftGap queryLineWidth this tableId doc = Returned (this1, doc1)"
    and 2: "calcLeftGaps queryLineWidth this1 tableIds doc1 = Returned (this', doc')"
    by (auto split: completion.splits)
  from calcLeftGap_Returned_keys [OF 1] Cons.IH [OF 2] show ?case by auto
qed

lemma perform_Returned_keys:
  assumes "perform queryLineWidth c (this, doc) = Returned (this', doc')"
    and "fst ` set (leftGap this) = fst ` set (tableWrapperWidth this)"
  shows "fst ` set (leftGap this') = fst ` set (tableWrapperWidth this')"
proof (cases c)
  case (SetTableWrapperWidth tableId w)
  let ?this1 = "this\<lparr>tableWrapperWidth := AList.update tableId w (tableWrapperWidth this)\<rparr>"
  from assms(1) SetTableWrapperWidth have
    "this' = this \<or> (\<exists>doc1. calcLeftGap queryLineWidth ?this1 tableId doc1 = Returned (this', doc'))"
    by (auto simp: setTableWrapperWidth_def Let_def split: if_splits completion.splits)
  then show ?thesis
  proof
    assume "this' = this"
    with assms(2) show ?thesis by simp
  next
    assume "\<exists>doc1. calcLeftGap queryLineWidth ?this1 tableId doc1 = Returned (this', doc')"
    then obtain doc1 where "calcLeftGap queryLineWidth ?this1 tableId doc1 = Returned (this', doc')" ..
    from calcLeftGap_Returned_keys [OF this] assms(2) show ?thesis
      by (simp add: dom_update)
  qed
next
  case (SetViewWidth v)
  let ?this1 = "this\<lparr>viewWidth := Some v\<rparr>"
  from assms(1) SetViewWidth obtain doc1 where
    "calcLeftGaps queryLineWidth ?this1 (map fst (leftGap this)) doc1 = Returned (this', doc')"
    by (auto simp: setViewWidth_def Let_def split: completion.splits)
  from calcLeftGaps_Returned_keys [OF this] assms(2) show ?thesis by simp
next
  case (AddChangeEventListener l)
  with assms(1) have "this' = addChangeEventListener this l" by simp
  then have "leftGap this' = leftGap this" "tableWrapperWidth this' = tableWrapperWidth this"
    by (cases l; simp)+
  with assms(2) show ?thesis by simp
qed

lemma tracked_have_leftGap:
  assumes "allReturned queryLineWidth calls s"
    and "fst ` set (leftGap (fst s)) = fst ` set (tableWrapperWidth (fst s))"
  shows "fst ` set (leftGap (fst (performAll queryLineWidth calls s))) =
         fst ` set (tableWrapperWidth (fst (performAll queryLineWidth calls s)))"
  using assms
proof (induction calls arbitrary: s)
  case Nil
  then show ?case by simp
next
  case (Cons c calls)
  from Cons.prems(1) obtain s' where s': "perform queryLineWidth c s = Returned s'"
    and rest: "allReturned queryLineWidth calls s'"
    by (auto split: completion.splits)
  have "fst ` set (leftGap (fst s')) = fst ` set (tableWrapperWidth (fst s'))"
    using perform_Returned_keys [of queryLineWidth c "fst s" "snd s" "fst s'" "snd s'"]
      s' Cons.prems(2) by simp
  from Cons.IH [OF rest this] s' show ?case by simp
qed

section \<open>Failure leaves the writes in place\<close>

text \<open>
  Claim C7 says that a \<open>set*\<close> call that fails leaves the store as it was before the
  call. The class has no rollback: the width is written before the listeners run and
  before \<open>calcLeftGap\<close> makes its checks. Measuring a table before the view width is
  known throws, and the width of the table stays in the store.
\<close>

theorem setTableWrapperWidth_not_atomic:
  "setTableWrapperWidth (lineWidthIs 400) loggedStore ''t1'' 300 [] =
     Threw (Error ''viewWidth is not initialized'')
       (loggedStore\<lparr>tableWrapperWidth := [(''t1'', 300)]\<rparr>,
        [(''w'', TableWrapperWidthChanged ''t1'' 300)]) \<and>
   tableWrapperWidth (loggedStore\<lparr>tableWrapperWidth := [(''t1'', 300)]\<rparr>) \<noteq>
     tableWrapperWidth loggedStore"
  by (simp add: setTableWrapperWidth_def calcLeftGap_def emitTableWrapperWidth_def
      loggedStore_def new_TableMap_def loggers_def logTableWrapperWidth_def)

text \<open>
  How a recomputation, the loop of recomputations and the two setters throw.
\<close>

lemma calcLeftGap_Threw:
  assumes "calcLeftGap queryLineWidth this tableId doc = Threw e (this', doc')"
  shows "this' = this \<and> doc' = doc \<and>
           (map_of (tableWrapperWidth this) tableId = None \<or> viewWidth this = None \<or>
            queryLineWidth doc = None) \<or>
         (\<exists>w V L. map_of (tableWrapperWidth this) tableId = Some w \<and> viewWidth this = Some V \<and>
            queryLineWidth doc = Some L \<and>
            this' = this\<lparr>leftGap := AList.update tableId (newLeftGap w L V) (leftGap this)\<rparr> \<and>
            emitLeftGap this tableId (newLeftGap w L V) doc = Threw e doc')"
  using assms
  by (auto simp: calcLeftGap_def emitLeftGap_leftGap_update Let_def
      split: option.splits completion.splits)

lemma calcLeftGaps_Threw:
  assumes "calcLeftGaps queryLineWidth this tableIds doc = Threw e s"
  shows "\<exists>before tableId rest this2 doc2. tableIds = before @ tableId # rest \<and>
           calcLeftGaps queryLineWidth this before doc = Returned (this2, doc2) \<and>
           calcLeftGap queryLineWidth this2 tableId doc2 = Threw e s"
  using assms
proof (induction tableIds arbitrary: this doc)
  case Nil
  then show ?case by simp
next
  case (Cons tableId tableIds)
  show ?case
  proof (cases "calcLeftGap queryLineWidth this tableId doc")
    case (Returned s1)
    obtain this1 doc1 where s1: "s1 = (this1, doc1)" by (cases s1)
    with Cons.prems Returned have "calcLeftGaps queryLineWidth this1 tableIds doc1 = Threw e s"
      by simp
    from Cons.IH [OF this] obtain before t rest this2 doc2 where
      "tableIds = before @ t # rest"
      "calcLeftGaps queryLineWidth this1 before doc1 = Returned (this2, doc2)"
      "calcLeftGap queryLineWidth this2 t doc2 = Threw e s"
      by blast
    with Returned s1 show ?thesis
      by (intro exI [of _ "tableId # before"] exI [of _ t] exI [of _ rest] exI [of _ this2]
          exI [of _ doc2]) simp
  next
    case (Threw e' s')
    with Cons.prems show ?thesis
      by (intro exI [of _ "[]"] exI [of _ tableId] exI [of _ tableIds] exI [of _ this]
          exI [of _ doc]) simp
  qed
qed

lemma setTableWrapperWidth_Threw:
  assumes "setTableWrapperWidth queryLineWidth this tableId w doc = Threw e (this', doc')"
  shows "map_of (tableWrapperWidth this) tableId \<noteq> Some w \<and>
    (emitTableWrapperWidth this tableId w doc = Threw e doc' \<and>
       this' = this\<lparr>tableWrapperWidth := AList.update tableId w (tableWrapperWidth this)\<rparr> \<or>
     emitTableWrapperWidth this tableId w doc = Returned doc' \<and>
       (viewWidth this = None \<or> queryLineWidth doc' = None) \<and>
       this' = this\<lparr>tableWrapperWidth := AList.update tableId w (tableWrapperWidth this)\<rparr> \<or>
     (\<exists>doc1 V L. emitTableWrapperWidth this tableId w doc = Returned doc1 \<and>
        viewWidth this = Some V \<and> queryLineWidth doc1 = Some L \<and>
        emitLeftGap this tableId (newLeftGap w L V) doc1 = Threw e doc' \<and>
        this' = this\<lparr>tableWrapperWidth := AList.update tableId w (tableWrapperWidth this),
                      leftGap := AList.update tableId (newLeftGap w L V) (leftGap this)\<rparr>))"
proof -
  let ?this1 = "this\<lparr>tableWrapperWidth := AList.update tableId w (tableWrapperWidth this)\<rparr>"
  have changed: "map_of (tableWrapperWidth this) tableId \<noteq> Some w"
    using assms by (auto simp: setTableWrapperWidth_def)
  have e1: "emitLeftGap ?this1 = emitLeftGap this"
    by (rule emitLeftGap_cong) simp
  show ?thesis
  proof (cases "emitTableWrapperWidth this tableId w doc")
    case (Threw e1 d1)
    with assms changed show ?thesis
      by (simp add: setTableWrapperWidth_def Let_def emitTableWrapperWidth_tableWrapperWidth_update)
  next
    case (Returned doc1)
    with assms changed have c: "calcLeftGap queryLineWidth ?this1 tableId doc1 = Threw e (this', doc')"
      by (simp add: setTableWrapperWidth_def Let_def emitTableWrapperWidth_tableWrapperWidth_update)
    from calcLeftGap_Threw [OF c] changed Returned show ?thesis
      unfolding e1 by (auto simp: update_conv')
  qed
qed


lemma setViewWidth_Threw:
  assumes "setViewWidth queryLineWidth this v doc = Threw e (this', doc')"
  shows "emitViewWidth this v doc = Threw e doc' \<and> this' = this\<lparr>viewWidth := Some v\<rparr> \<or>
    (\<exists>doc1 before tableId rest this2 doc2.
       emitViewWidth this v doc = Returned doc1 \<and>
       map fst (leftGap this) = before @ tableId # rest \<and>
       calcLeftGaps queryLineWidth (this\<lparr>viewWidth := Some v\<rparr>) before doc1 =
         Returned (this2, doc2) \<and>
       viewWidth this2 = Some v \<and> tableWrapperWidth this2 = tableWrapperWidth this \<and>
       changeEventListeners this2 = changeEventListeners this \<and>
       (\<forall>t \<in> set before. \<exists>wr L d d'.
          map_of (tableWrapperWidth this) t = Some wr \<and> queryLineWidth d = Some L \<and>
          map_of (leftGap this2) t = Some (newLeftGap wr L v) \<and>
          emitLeftGap this t (newLeftGap wr L v) d = Returned d') \<and>
       (\<forall>t. t \<notin> set before \<longrightarrow> map_of (leftGap this2) t = map_of (leftGap this) t) \<and>
       (this' = this2 \<and> doc' = doc2 \<and>
          (map_of (tableWrapperWidth this) tableId = None \<or> queryLineWidth doc2 = None) \<or>
        (\<exists>wr L. map_of (tableWrapperWidth this) tableId = Some wr \<and>
           queryLineWidth doc2 = Some L \<and>
           emitLeftGap this tableId (newLeftGap wr L v) doc2 = Threw e doc' \<and>
           this' = this2\<lparr>leftGap :=
                           AList.update tableId (newLeftGap wr L v) (leftGap this2)\<rparr>)))"
proof (cases "emitViewWidth this v doc")
  case (Threw e1 d1)
  with assms show ?thesis
    by (simp add: setViewWidth_def Let_def emitViewWidth_viewWidth_update)
next
  case (Returned doc1)
  let ?this1 = "this\<lparr>viewWidth := Some v\<rparr>"
  from assms Returned have
    "calcLeftGaps queryLineWidth ?this1 (map fst (leftGap this)) doc1 = Threw e (this', doc')"
    by (simp add: setViewWidth_def Let_def emitViewWidth_viewWidth_update)
  from calcLeftGaps_Threw [OF this] obtain before tableId rest this2 doc2 where
    keys: "map fst (leftGap this) = before @ tableId # rest"
    and run: "calcLeftGaps queryLineWidth ?this1 before doc1 = Returned (this2, doc2)"
    and last: "calcLeftGap queryLineWidth this2 tableId doc2 = Threw e (this', doc')"
    by blast
  have keeps: "tableWrapperWidth this2 = tableWrapperWidth this" "viewWidth this2 = Some v"
    "changeEventListeners this2 = changeEventListeners this"
    using calcLeftGaps_keeps [of queryLineWidth ?this1 before doc1] run by simp_all
  have e1: "emitLeftGap ?this1 = emitLeftGap this" "emitLeftGap this2 = emitLeftGap this"
    by (rule emitLeftGap_cong, simp)
      (rule emitLeftGap_cong, simp add: keeps)
  note R = calcLeftGaps_Returned_each [OF run]
  have each: "\<forall>t \<in> set before. \<exists>wr L d d'.
          map_of (tableWrapperWidth this) t = Some wr \<and> queryLineWidth d = Some L \<and>
          map_of (leftGap this2) t = Some (newLeftGap wr L v) \<and>
          emitLeftGap this t (newLeftGap wr L v) d = Returned d'"
  proof
    fix t assume "t \<in> set before"
    with R obtain wr V L d d' where
      f: "map_of (tableWrapperWidth ?this1) t = Some wr" "viewWidth ?this1 = Some V"
        "queryLineWidth d = Some L" "map_of (leftGap this2) t = Some (newLeftGap wr L V)"
        "emitLeftGap ?this1 t (newLeftGap wr L V) d = Returned d'"
      by blast
    from f(2) have "V = v" by simp
    with f show "\<exists>wr L d d'.
          map_of (tableWrapperWidth this) t = Some wr \<and> queryLineWidth d = Some L \<and>
          map_of (leftGap this2) t = Some (newLeftGap wr L v) \<and>
          emitLeftGap this t (newLeftGap wr L v) d = Returned d'"
      unfolding e1 by (intro exI [of _ wr] exI [of _ L] exI [of _ d] exI [of _ d']) simp
  qed
  have others: "\<forall>t. t \<notin> set before \<longrightarrow> map_of (leftGap this2) t = map_of (leftGap this) t"
    using R by simp
  note T = calcLeftGap_Threw [OF last]
  have final: "this' = this2 \<and> doc' = doc2 \<and>
          (map_of (tableWrapperWidth this) tableId = None \<or> queryLineWidth doc2 = None) \<or>
        (\<exists>wr L. map_of (tableWrapperWidth this) tableId = Some wr \<and>
           queryLineWidth doc2 = Some L \<and>
           emitLeftGap this tableId (newLeftGap wr L v) doc2 = Threw e doc' \<and>
           this' = this2\<lparr>leftGap :=
                           AList.update tableId (newLeftGap wr L v) (leftGap this2)\<rparr>)"
    using T
  proof
    assume "this' = this2 \<and> doc' = doc2 \<and>
      (map_of (tableWrapperWidth this2) tableId = None \<or> viewWidth this2 = None \<or>
       queryLineWidth doc2 = None)"
    then show ?thesis unfolding keeps by simp
  next
    assume "\<exists>w V L. map_of (tableWrapperWidth this2) tableId = Some w \<and>
      viewWidth this2 = Some V \<and> queryLineWidth doc2 = Some L \<and>
      this' = this2\<lparr>leftGap := AList.update tableId (newLeftGap w L V) (leftGap this2)\<rparr> \<and>
      emitLeftGap this2 tableId (newLeftGap w L V) doc2 = Threw e doc'"
    then obtain wr V L where
      g: "map_of (tableWrapperWidth this2) tableId = Some wr" "viewWidth this2 = Some V"
        "queryLineWidth doc2 = Some L"
        "this' = this2\<lparr>leftGap := AList.update tableId (newLeftGap wr L V) (leftGap this2)\<rparr>"
        "emitLeftGap this2 tableId (newLeftGap wr L V) doc2 = Threw e doc'"
      by blast
    from g(2) keeps(2) have "V = v" by simp
    with g have "map_of (tableWrapperWidth this) tableId = Some wr \<and>
           queryLineWidth doc2 = Some L \<and>
           emitLeftGap this tableId (newLeftGap wr L v) doc2 = Threw e doc' \<and>
           this' = this2\<lparr>leftGap :=
                           AList.update tableId (newLeftGap wr L v) (leftGap this2)\<rparr>"
      unfolding e1 keeps by simp
    then show ?thesis by blast
  qed
  have "\<exists>doc1 before tableId rest this2 doc2.
       emitViewWidth this v doc = Returned doc1 \<and>
       map fst (leftGap this) = before @ tableId # rest \<and>
       calcLeftGaps queryLineWidth (this\<lparr>viewWidth := Some v\<rparr>) before doc1 =
         Returned (this2, doc2) \<and>
       viewWidth this2 = Some v \<and> tableWrapperWidth this2 = tableWrapperWidth this \<and>
       changeEventListeners this2 = changeEventListeners this \<and>
       (\<forall>t \<in> set before. \<exists>wr L d d'.
          map_of (tableWrapperWidth this) t = Some wr \<and> queryLineWidth d = Some L \<and>
          map_of (leftGap this2) t = Some (newLeftGap wr L v) \<and>
          emitLeftGap this t (newLeftGap wr L v) d = Returned d') \<and>
       (\<forall>t. t \<notin> set before \<longrightarrow> map_of (leftGap this2) t = map_of (leftGap this) t) \<and>
       (this' = this2 \<and> doc' = doc2 \<and>
          (map_of (tableWrapperWidth this) tableId = None \<or> queryLineWidth doc2 = None) \<or>
        (\<exists>wr L. map_of (tableWrapperWidth this) tableId = Some wr \<and>
           queryLineWidth doc2 = Some L \<and>
           emitLeftGap this tableId (newLeftGap wr L v) doc2 = Threw e doc' \<and>
           this' = this2\<lparr>leftGap :=
                           AList.update tableId (newLeftGap wr L v) (leftGap this2)\<rparr>))"
    using Returned keys run keeps(2) keeps(1) keeps(3) each others final
    by (intro exI [of _ doc1] exI [of _ before] exI [of _ tableId] exI [of _ rest]
        exI [of _ this2] exI [of _ doc2] conjI) assumption+
  then show ?thesis by (rule disjI2)
qed

text \<open>
  Claim C7, amended. A \<open>set*\<close> call stops at the first error and keeps every write
  made before it; nothing is rolled back.

  A \<open>setTableWrapperWidth\<close> that throws was given a width other than the stored one
  and has stored it. Either a \<open>tableWrapperWidth\<close> listener threw, or the view width
  or the line width was missing, and then the store is the one before the call with the
  new width written; or a \<open>leftGap\<close> listener threw, and then the new left gap of the
  entity is written as well.

  A \<open>setViewWidth\<close> that throws has stored the view width. Either a \<open>viewWidth\<close>
  listener threw, and the store is the one before the call with the new view width; or
  the loop of recomputations stopped at one entity: the entities before it in the order
  of the keys have their recomputed left gaps stored, the entities not reached have the
  left gaps they had, and the entity at which the loop stopped has its new left gap
  written if a \<open>leftGap\<close> listener threw, and its old one if a check failed.
\<close>

theorem setters_keep_partial_writes:
  "(setTableWrapperWidth queryLineWidth this tableId w doc = Threw e (this', doc') \<longrightarrow>
      map_of (tableWrapperWidth this) tableId \<noteq> Some w \<and>
      (emitTableWrapperWidth this tableId w doc = Threw e doc' \<and>
         this' = this\<lparr>tableWrapperWidth := AList.update tableId w (tableWrapperWidth this)\<rparr> \<or>
       emitTableWrapperWidth this tableId w doc = Returned doc' \<and>
         (viewWidth this = None \<or> queryLineWidth doc' = None) \<and>
         this' = this\<lparr>tableWrapperWidth := AList.update tableId w (tableWrapperWidth this)\<rparr> \<or>
       (\<exists>doc1 V L. emitTableWrapperWidth this tableId w doc = Returned doc1 \<and>
          viewWidth this = Some V \<and> queryLineWidth doc1 = Some L \<and>
          emitLeftGap this tableId (newLeftGap w L V) doc1 = Threw e doc' \<and>
          this' = this\<lparr>tableWrapperWidth := AList.update tableId w (tableWrapperWidth this),
                        leftGap := AList.update tableId (newLeftGap w L V) (leftGap this)\<rparr>))) \<and>
   (setViewWidth queryLineWidth this v doc = Threw e (this', doc') \<longrightarrow>
      (emitViewWidth this v doc = Threw e doc' \<and> this' = this\<lparr>viewWidth := Some v\<rparr> \<or>
       (\<exists>doc1 before tableId rest this2 doc2.
          emitViewWidth this v doc = Returned doc1 \<and>
          map fst (leftGap this) = before @ tableId # rest \<and>
          calcLeftGaps queryLineWidth (this\<lparr>viewWidth := Some v\<rparr>) before doc1 =
            Returned (this2, doc2) \<and>
          viewWidth this2 = Some v \<and> tableWrapperWidth this2 = tableWrapperWidth this \<and>
          changeEventListeners this2 = changeEventListeners this \<and>
          (\<forall>t \<in> set before. \<exists>wr L d d'.
             map_of (tableWrapperWidth this) t = Some wr \<and> queryLineWidth d = Some L \<and>
             map_of (leftGap this2) t = Some (newLeftGap wr L v) \<and>
             emitLeftGap this t (newLeftGap wr L v) d = Returned d') \<and>
          (\<forall>t. t \<notin> set before \<longrightarrow> map_of (leftGap this2) t = map_of (leftGap this) t) \<and>
          (this' = this2 \<and> doc' = doc2 \<and>
             (map_of (tableWrapperWidth this) tableId = None \<or> queryLineWidth doc2 = None) \<or>
           (\<exists>wr L. map_of (tableWrapperWidth this) tableId = Some wr \<and>
              queryLineWidth doc2 = Some L \<and>
              emitLeftGap this tableId (newLeftGap wr L v) doc2 = Threw e doc' \<and>
              this' = this2\<lparr>leftGap :=
                              AList.update tableId (newLeftGap wr L v) (leftGap this2)\<rparr>)))))"
proof (rule conjI)
  show "setTableWrapperWidth queryLineWidth this tableId w doc = Threw e (this', doc') \<longrightarrow>
      map_of (tableWrapperWidth this) tableId \<noteq> Some w \<and>
      (emitTableWrapperWidth this tableId w doc = Threw e doc' \<and>
         this' = this\<lparr>tableWrapperWidth := AList.update tableId w (tableWrapperWidth this)\<rparr> \<or>
       emitTableWrapperWidth this tableId w doc = Returned doc' \<and>
         (viewWidth this = None \<or> queryLineWidth doc' = None) \<and>
         this' = this\<lparr>tableWrapperWidth := AList.update tableId w (tableWrapperWidth this)\<rparr> \<or>
       (\<exists>doc1 V L. emitTableWrapperWidth this tableId w doc = Returned doc1 \<and>
          viewWidth this = Some V \<and> queryLineWidth doc1 = Some L \<and>
          emitLeftGap this tableId (newLeftGap w L V) doc1 = Threw e doc' \<and>
          this' = this\<lparr>tableWrapperWidth := AList.update tableId w (tableWrapperWidth this),
                        leftGap := AList.update tableId (newLeftGap w L V) (leftGap this)\<rparr>))"
    by (rule impI) (rule setTableWrapperWidth_Threw)
next
  show "setViewWidth queryLineWidth this v doc = Threw e (this', doc') \<longrightarrow>
      (emitViewWidth this v doc = Threw e doc' \<and> this' = this\<lparr>viewWidth := Some v\<rparr> \<or>
       (\<exists>doc1 before tableId rest this2 doc2.
          emitViewWidth this v doc = Returned doc1 \<and>
          map fst (leftGap this) = before @ tableId # rest \<and>
          calcLeftGaps queryLineWidth (this\<lparr>viewWidth := Some v\<rparr>) before doc1 =
            Returned (this2, doc2) \<and>
          viewWidth this2 = Some v \<and> tableWrapperWidth this2 = tableWrapperWidth this \<and>
          changeEventListeners this2 = changeEventListeners this \<and>
          (\<forall>t \<in> set before. \<exists>wr L d d'.
             map_of (tableWrapperWidth this) t = Some wr \<and> queryLineWidth d = Some L \<and>
             map_of (leftGap this2) t = Some (newLeftGap wr L v) \<and>
             emitLeftGap this t (newLeftGap wr L v) d = Returned d') \<and>
          (\<forall>t. t \<notin> set before \<longrightarrow> map_of (leftGap this2) t = map_of (leftGap this) t) \<and>
          (this' = this2 \<and> doc' = doc2 \<and>
             (map_of (tableWrapperWidth this) tableId = None \<or> queryLineWidth doc2 = None) \<or>
           (\<exists>wr L. map_of (tableWrapperWidth this) tableId = Some wr \<and>
              queryLineWidth doc2 = Some L \<and>
              emitLeftGap this tableId (newLeftGap wr L v) doc2 = Threw e doc' \<and>
              this' = this2\<lparr>leftGap :=
                              AList.update tableId (newLeftGap wr L v) (leftGap this2)\<rparr>))))"
    by (rule impI) (rule setViewWidth_Threw)
qed


text \<open>
  The listener of the left gap rejects table \<open>t2\<close>. Measuring \<open>t2\<close> throws with its
  width 1400 and its left gap 300 stored. A view of 1200 throws at \<open>t2\<close> with the view
  width, the left gap 350 of \<open>t1\<close> (recomputed before the error) and the left gap 400
  of \<open>t2\<close> stored.
\<close>

theorem setters_keep_partial_writes_witness:
  "setTableWrapperWidth (lineWidthIs 400) (styledStore\<lparr>viewWidth := Some 1000\<rparr>) ''t2'' 1400 [] =
     Threw (Error ''tableWidgetElement is not an HTMLElement: t2'')
       (styledStore\<lparr>viewWidth := Some 1000, tableWrapperWidth := [(''t2'', 1400)],
          leftGap := [(''t2'', 300)]\<rparr>,
        [(''w'', TableWrapperWidthChanged ''t2'' 1400)]) \<and>
   setViewWidth (lineWidthIs 400)
     (styledStore\<lparr>viewWidth := Some 1000, tableWrapperWidth := [(''t1'', 1100), (''t2'', 1400)],
        leftGap := [(''t1'', 300), (''t2'', 300)]\<rparr>) 1200 [] =
     Threw (Error ''tableWidgetElement is not an HTMLElement: t2'')
       (styledStore\<lparr>viewWidth := Some 1200, tableWrapperWidth := [(''t1'', 1100), (''t2'', 1400)],
          leftGap := [(''t1'', 350), (''t2'', 400)]\<rparr>,
        [(''v'', ViewWidthChanged 1200), (''style'', LeftGapChanged ''t1'' 350)]) \<and>
   map_of (tableWrapperWidth (styledStore\<lparr>viewWidth := Some 1000\<rparr>)) ''t2'' = None"
proof -
  have a: "setTableWrapperWidth (lineWidthIs 400) (styledStore\<lparr>viewWidth := Some 1000\<rparr>)
       ''t2'' 1400 [] =
     Threw (Error ''tableWidgetElement is not an HTMLElement: t2'')
       (styledStore\<lparr>viewWidth := Some 1000, tableWrapperWidth := [(''t2'', 1400)],
          leftGap := [(''t2'', 300)]\<rparr>,
        [(''w'', TableWrapperWidthChanged ''t2'' 1400)])"
    by (simp add: setTableWrapperWidth_def calcLeftGap_def emitTableWrapperWidth_def
      styledStore_def new_TableMap_def logTableWrapperWidth_def lineWidthIs_def newLeftGap_def
      emitLeftGap_def rejectTable_def)
  have b: "setViewWidth (lineWidthIs 400)
     (styledStore\<lparr>viewWidth := Some 1000, tableWrapperWidth := [(''t1'', 1100), (''t2'', 1400)],
        leftGap := [(''t1'', 300), (''t2'', 300)]\<rparr>) 1200 [] =
     Threw (Error ''tableWidgetElement is not an HTMLElement: t2'')
       (styledStore\<lparr>viewWidth := Some 1200, tableWrapperWidth := [(''t1'', 1100), (''t2'', 1400)],
          leftGap := [(''t1'', 350), (''t2'', 400)]\<rparr>,
        [(''v'', ViewWidthChanged 1200), (''style'', LeftGapChanged ''t1'' 350)])"
    by (simp add: setViewWidth_def calcLeftGap_def emitViewWidth_def
      styledStore_def new_TableMap_def logViewWidth_def lineWidthIs_def newLeftGap_def
      emitLeftGap_def rejectTable_def)
  have c: "map_of (tableWrapperWidth (styledStore\<lparr>viewWidth := Some 1000\<rparr>)) ''t2'' = None"
    by (simp add: styledStore_def new_TableMap_def)
  from a b c
    setters_keep_partial_writes [where queryLineWidth = "lineWidthIs 400"
      and this = "styledStore\<lparr>viewWidth := Some 1000\<rparr>" and tableId = "''t2''" and w = 1400
      and doc = "[]" and e = "Error ''tableWidgetElement is not an HTMLElement: t2''"
      and this' = "styledStore\<lparr>viewWidth := Some 1000, tableWrapperWidth := [(''t2'', 1400)],
          leftGap := [(''t2'', 300)]\<rparr>"
      and doc' = "[(''w'', TableWrapperWidthChanged ''t2'' 1400)]" and v = 0]
    setters_keep_partial_writes [where queryLineWidth = "lineWidthIs 400"
      and this = "styledStore\<lparr>viewWidth := Some 1000,
        tableWrapperWidth := [(''t1'', 1100), (''t2'', 1400)],
        leftGap := [(''t1'', 300), (''t2'', 300)]\<rparr>" and tableId = "''t2''" and w = 1400
      and doc = "[]" and e = "Error ''tableWidgetElement is not an HTMLElement: t2''"
      and this' = "styledStore\<lparr>viewWidth := Some 1200,
          tableWrapperWidth := [(''t1'', 1100), (''t2'', 1400)],
          leftGap := [(''t1'', 350), (''t2'', 400)]\<rparr>"
      and doc' = "[(''v'', ViewWidthChanged 1200), (''style'', LeftGapChanged ''t1'' 350)]"
      and v = 1200]
  show ?thesis by - (intro conjI, assumption+)
qed


section \<open>The sign of the left gap\<close>

text \<open>
  Claim C5 says that no stored left gap is negative, for all sequences of calls with
  non-negative widths and any line widths. The third branch stores \<open>(V - L) / 2\<close>,
  which is negative when the line is wider than the view: with a view of 300 and a line
  of 400, a wrapper of 500 gets the left gap \<open>-50\<close>.
\<close>

theorem leftGap_negative:
  "performAll (lineWidthIs 400) [SetViewWidth 300, SetTableWrapperWidth ''t1'' 500]
     (loggedStore, []) =
     (loggedStore\<lparr>viewWidth := Some 300, tableWrapperWidth := [(''t1'', 500)],
        leftGap := [(''t1'', - 50)]\<rparr>,
      [(''v'', ViewWidthChanged 300), (''w'', TableWrapperWidthChanged ''t1'' 500),
       (''g'', LeftGapChanged ''t1'' (- 50))]) \<and>
   (- 50 :: number) < 0"
  by (simp add: setTableWrapperWidth_def calcLeftGap_def emitTableWrapperWidth_def
      loggedStore_def new_TableMap_def loggers_def logTableWrapperWidth_def setViewWidth_def
      emitViewWidth_def logViewWidth_def lineWidthIs_def newLeftGap_def emitLeftGap_def
      logLeftGap_def)

lemma newLeftGap_nonneg: "L \<le> V \<Longrightarrow> 0 \<le> newLeftGap w L V"
  by (simp add: newLeftGap_def)

lemma addChangeEventListener_keeps:
  "viewWidth (addChangeEventListener this l) = viewWidth this \<and>
   tableWrapperWidth (addChangeEventListener this l) = tableWrapperWidth this \<and>
   leftGap (addChangeEventListener this l) = leftGap this"
  by (cases l) simp_all

lemma calcLeftGap_reads_nonneg:
  assumes "\<forall>(w, L, V) \<in> set (calcLeftGapReads queryLineWidth this tableId doc). L \<le> V"
    and "gapsNonNegative this"
  shows "gapsNonNegative (fst (state_after (calcLeftGap queryLineWidth this tableId doc)))"
proof (cases "\<exists>w V L. map_of (tableWrapperWidth this) tableId = Some w \<and> viewWidth this = Some V \<and>
    queryLineWidth doc = Some L")
  case True
  then obtain w V L where d: "map_of (tableWrapperWidth this) tableId = Some w"
    "viewWidth this = Some V" "queryLineWidth doc = Some L" by blast
  then have "L \<le> V" using assms(1) by (simp add: calcLeftGapReads_def)
  then have "0 \<le> newLeftGap w L V" by (rule newLeftGap_nonneg)
  moreover have "fst (state_after (calcLeftGap queryLineWidth this tableId doc)) =
      this\<lparr>leftGap := AList.update tableId (newLeftGap w L V) (leftGap this)\<rparr>"
    using storesAndPublishes_checked [of this tableId w V queryLineWidth doc L] d
    by (simp add: storesAndPublishes_def)
  ultimately show ?thesis
    using assms(2) by (auto simp: gapsNonNegative_def update_conv')
next
  case False
  then have "\<exists>e. calcLeftGap queryLineWidth this tableId doc = Threw e (this, doc)"
    by (auto simp: calcLeftGap_def split: option.splits)
  then show ?thesis using assms(2) by auto
qed

lemma calcLeftGaps_reads_nonneg:
  assumes "\<forall>(w, L, V) \<in> set (calcLeftGapsReads queryLineWidth this tableIds doc). L \<le> V"
    and "gapsNonNegative this"
  shows "gapsNonNegative (fst (state_after (calcLeftGaps queryLineWidth this tableIds doc)))"
  using assms
proof (induction tableIds arbitrary: this doc)
  case Nil
  then show ?case by simp
next
  case (Cons tableId tableIds)
  let ?r = "calcLeftGap queryLineWidth this tableId doc"
  have g: "gapsNonNegative (fst (state_after ?r))"
    using Cons.prems by (intro calcLeftGap_reads_nonneg) auto
  show ?case
  proof (cases ?r)
    case (Returned s)
    obtain this' doc' where s: "s = (this', doc')" by (cases s)
    have "\<forall>(w, L, V) \<in> set (calcLeftGapsReads queryLineWidth this' tableIds doc'). L \<le> V"
      using Cons.prems(1) Returned s by auto
    from Cons.IH [OF this] g Returned s show ?thesis by simp
  next
    case (Threw e s)
    with g show ?thesis by simp
  qed
qed

lemma setTableWrapperWidth_reads_nonneg:
  assumes "\<forall>(w', L, V) \<in> set (setTableWrapperWidthReads queryLineWidth this tableId w doc). L \<le> V"
    and "gapsNonNegative this"
  shows "gapsNonNegative
           (fst (state_after (setTableWrapperWidth queryLineWidth this tableId w doc)))"
proof (cases "map_of (tableWrapperWidth this) tableId = Some w")
  case True
  with assms(2) show ?thesis by (simp add: setTableWrapperWidth_def)
next
  case False
  let ?this1 = "this\<lparr>tableWrapperWidth := AList.update tableId w (tableWrapperWidth this)\<rparr>"
  have g1: "gapsNonNegative ?this1"
    using assms(2) by (simp add: gapsNonNegative_def)
  show ?thesis
  proof (cases "emitTableWrapperWidth ?this1 tableId w doc")
    case (Returned doc1)
    have "\<forall>(w', L, V) \<in> set (calcLeftGapReads queryLineWidth ?this1 tableId doc1). L \<le> V"
      using assms(1) False Returned by (simp add: setTableWrapperWidthReads_def Let_def)
    from calcLeftGap_reads_nonneg [OF this g1] False Returned show ?thesis
      by (simp add: setTableWrapperWidth_def Let_def)
  next
    case (Threw e doc1)
    with False g1 show ?thesis by (simp add: setTableWrapperWidth_def Let_def)
  qed
qed

lemma setViewWidth_reads_nonneg:
  assumes "\<forall>(w, L, V) \<in> set (setViewWidthReads queryLineWidth this v doc). L \<le> V"
    and "gapsNonNegative this"
  shows "gapsNonNegative (fst (state_after (setViewWidth queryLineWidth this v doc)))"
proof -
  let ?this1 = "this\<lparr>viewWidth := Some v\<rparr>"
  have g1: "gapsNonNegative ?this1"
    using assms(2) by (simp add: gapsNonNegative_def)
  show ?thesis
  proof (cases "emitViewWidth ?this1 v doc")
    case (Returned doc1)
    have "\<forall>(w, L, V) \<in> set (calcLeftGapsReads queryLineWidth ?this1 (map fst (leftGap this)) doc1).
            L \<le> V"
      using assms(1) Returned by (simp add: setViewWidthReads_def Let_def)
    from calcLeftGaps_reads_nonneg [OF this g1] Returned show ?thesis
      by (simp add: setViewWidth_def Let_def)
  next
    case (Threw e doc1)
    with g1 show ?thesis by (simp add: setViewWidth_def Let_def)
  qed
qed

lemma perform_reads_nonneg:
  assumes "\<forall>(w, L, V) \<in> set (performReads queryLineWidth c s). L \<le> V"
    and "gapsNonNegative (fst s)"
  shows "gapsNonNegative (fst (state_after (perform queryLineWidth c s)))"
proof (cases s)
  case (Pair this doc)
  show ?thesis
  proof (cases c)
    case (SetTableWrapperWidth tableId w)
    with assms Pair setTableWrapperWidth_reads_nonneg [of queryLineWidth this tableId w doc]
    show ?thesis by simp
  next
    case (SetViewWidth v)
    with assms Pair setViewWidth_reads_nonneg [of queryLineWidth this v doc]
    show ?thesis by simp
  next
    case (AddChangeEventListener l)
    with assms Pair addChangeEventListener_keeps [of this l] show ?thesis
      by (simp add: gapsNonNegative_def)
  qed
qed

lemma performAll_reads_nonneg:
  assumes "\<forall>(w, L, V) \<in> set (performAllReads queryLineWidth calls s). L \<le> V"
    and "gapsNonNegative (fst s)"
  shows "gapsNonNegative (fst (performAll queryLineWidth calls s))"
  using assms
proof (induction calls arbitrary: s)
  case Nil
  then show ?case by simp
next
  case (Cons c calls)
  have "gapsNonNegative (fst (state_after (perform queryLineWidth c s)))"
    using Cons.prems by (intro perform_reads_nonneg) auto
  moreover have "\<forall>(w, L, V) \<in> set (performAllReads queryLineWidth calls
      (state_after (perform queryLineWidth c s))). L \<le> V"
    using Cons.prems(1) by auto
  ultimately show ?case using Cons.IH by simp
qed

text \<open>
  Claim C5, amended. Starting from a new store, after any sequence of
  \<open>setTableWrapperWidth\<close>, \<open>setViewWidth\<close> and \<open>addChangeEventListener\<close> calls,
  whatever their widths and completions, every stored left gap is zero or positive,
  provided that at every recomputation the run makes the line width read is at most the
  view width stored at that moment.
\<close>

theorem leftGap_nonnegative:
  assumes "\<forall>(w, L, V) \<in> set (performAllReads queryLineWidth calls (new_TableMap, doc)). L \<le> V"
    and "map_of (leftGap (fst (performAll queryLineWidth calls (new_TableMap, doc)))) tableId = Some g"
  shows "0 \<le> g"
proof -
  have "gapsNonNegative (fst (new_TableMap :: 'a TableMap, doc))"
    by (simp add: gapsNonNegative_def new_TableMap_def)
  from performAll_reads_nonneg [OF assms(1) this] assms(2) show ?thesis
    by (auto simp: gapsNonNegative_def)
qed

text \<open>
  With a line of 400: the view is 100, then 1000, then the table is measured at 500, then
  the view is 1200. The two recomputations read the line against views of 1000 and 1200,
  and the left gap is 50.
\<close>

theorem leftGap_nonnegative_witness:
  "performAllReads (lineWidthIs 400)
     [AddChangeEventListener (OnLeftGap (logLeftGap ''g'')), SetViewWidth 100, SetViewWidth 1000,
      SetTableWrapperWidth ''t1'' 500, SetViewWidth 1200] (new_TableMap, []) =
     [(500, 400, 1000), (500, 400, 1200)] \<and>
   map_of (leftGap (fst (performAll (lineWidthIs 400)
     [AddChangeEventListener (OnLeftGap (logLeftGap ''g'')), SetViewWidth 100, SetViewWidth 1000,
      SetTableWrapperWidth ''t1'' 500, SetViewWidth 1200] (new_TableMap, [])))) ''t1'' =
     Some 50 \<and>
   (0 :: number) \<le> 50"
proof -
  let ?calls = "[AddChangeEventListener (OnLeftGap (logLeftGap ''g'')), SetViewWidth 100,
      SetViewWidth 1000, SetTableWrapperWidth ''t1'' 500, SetViewWidth 1200]"
  have reads: "performAllReads (lineWidthIs 400) ?calls (new_TableMap, []) =
      [(500, 400, 1000), (500, 400, 1200)]"
    by (simp add: setTableWrapperWidth_def calcLeftGap_def emitTableWrapperWidth_def
      new_TableMap_def setViewWidth_def emitViewWidth_def lineWidthIs_def newLeftGap_def
      emitLeftGap_def logLeftGap_def setTableWrapperWidthReads_def setViewWidthReads_def
      calcLeftGapReads_def)
  have h: "\<forall>(w, L, V) \<in> set (performAllReads (lineWidthIs 400) ?calls (new_TableMap, [])). L \<le> V"
    unfolding reads by simp
  have r: "map_of (leftGap (fst (performAll (lineWidthIs 400) ?calls (new_TableMap, [])))) ''t1'' =
     Some 50"
    by (simp add: setTableWrapperWidth_def calcLeftGap_def emitTableWrapperWidth_def
      new_TableMap_def setViewWidth_def emitViewWidth_def lineWidthIs_def newLeftGap_def
      emitLeftGap_def logLeftGap_def setTableWrapperWidthReads_def setViewWidthReads_def
      calcLeftGapReads_def)
  from leftGap_nonnegative [OF h r] reads r show ?thesis by simp
qed


end
